theory Spec2Isabelle
  imports Main
begin

section \<open>Strings and the Python string operations the scripts use\<close>

text \<open>
  A Python \<open>str\<close> is modelled as a \<open>string\<close> (a list of characters). All characters
  the scripts compare against are ASCII.
\<close>

text \<open>
  \<open>s.replace(old, new)\<close> where \<open>old\<close> and \<open>new\<close> are single characters: every
  occurrence of \<open>old\<close> becomes \<open>new\<close>, everything else is kept.
\<close>

definition replace_char :: "char \<Rightarrow> char \<Rightarrow> string \<Rightarrow> string" where
  "replace_char old new s = map (\<lambda>c. if c = old then new else c) s"

text \<open>\<open>d.get(key, default)\<close> on a dictionary literal, kept as an association list.\<close>

definition dict_get :: "('k \<times> 'v) list \<Rightarrow> 'k \<Rightarrow> 'v \<Rightarrow> 'v" where
  "dict_get d key dflt = (case map_of d key of Some v \<Rightarrow> v | None \<Rightarrow> dflt)"

section \<open>\<open>sanitize_filename\<close> (ytmediadownload.py)\<close>

text \<open>
  \<^verbatim>\<open>invalid_chars = '<>:"/\\|?*'\<close>: the nine characters
  \<open>< > : " / \ | ? *\<close> (the double quote is \<open>0x22\<close>, the backslash \<open>0x5C\<close>).
\<close>

definition invalid_chars :: string where
  "invalid_chars =
     [CHR ''<'', CHR ''>'', CHR '':'', CHR 0x22, CHR ''/'', CHR 0x5C, CHR ''|'', CHR ''?'', CHR ''*'']"

text \<open>
  \<^verbatim>\<open>for char in invalid_chars: title = title.replace(char, '_')\<close>
  The loop over \<open>invalid_chars\<close> is a left fold that threads \<open>title\<close>.
\<close>

definition sanitize_filename :: "string \<Rightarrow> string" where
  "sanitize_filename title = foldl (\<lambda>t char. replace_char char CHR ''_'' t) title invalid_chars"

text \<open>
  The two other scripts do not call \<open>sanitize_filename\<close>; inside \<open>download_video\<close> they
  apply \<^verbatim>\<open>.replace('/', '_').replace('\\', '_')\<close> to the title.
\<close>

definition replace_slashes :: "string \<Rightarrow> string" where
  "replace_slashes title = replace_char (CHR 0x5C) CHR ''_'' (replace_char CHR ''/'' CHR ''_'' title)"

section \<open>Quality tables (ytmediaqualityselect.py, ytmediadownload.py.py)\<close>

text \<open>\<open>bitrates\<close> and the lookup \<open>bitrates.get(quality, '192k')\<close> of \<open>convert_to_mp3\<close>.\<close>

definition bitrates :: "(string \<times> string) list" where
  "bitrates = [(''low'', ''128k''), (''medium'', ''192k''), (''high'', ''320k'')]"

definition bitrate :: "string \<Rightarrow> string" where
  "bitrate quality = dict_get bitrates quality ''192k''"

text \<open>
  \<open>quality_formats\<close> and the lookup
  \<open>quality_formats.get(video_quality, 'bestvideo+bestaudio/best')\<close> of \<open>download_video\<close>.
  \<open>video_quality\<close> is \<open>None\<close> when the format is mp3, hence the option type of the key.
\<close>

definition quality_formats :: "(string option \<times> string) list" where
  "quality_formats =
     [(Some ''720p'', ''bestvideo[height<=720]+bestaudio/best''),
      (Some ''1080p'', ''bestvideo[height<=1080]+bestaudio/best''),
      (Some ''1440p'', ''bestvideo[height<=1440]+bestaudio/best'')]"

definition video_format :: "string option \<Rightarrow> string" where
  "video_format video_quality = dict_get quality_formats video_quality ''bestvideo+bestaudio/best''"

section \<open>\<open>generate_unique_filename\<close> (the same in the three scripts)\<close>

text \<open>
  A \<open>pathlib.Path\<close> is modelled by its string. \<open>output_path / name\<close> with a file name
  puts the separator between the directory and the name; names that \<open>pathlib\<close> would
  normalise (a name with separators of its own, or the name \<open>.\<close>) are joined in the same
  way.
\<close>

type_synonym path = string

definition joinpath :: "path \<Rightarrow> string \<Rightarrow> path" where
  "joinpath output_path name = output_path @ ''/'' @ name"

text \<open>
  \<open>f"{i}"\<close> for a counter \<open>i \<ge> 0\<close>: the decimal digits of \<open>i\<close>, most significant
  first, without leading zeros. Python's \<open>int\<close> is unbounded, so \<open>i\<close> is a \<open>nat\<close>.
\<close>

definition digit_char :: "nat \<Rightarrow> char" where
  "digit_char d = ''0123456789'' ! d"

fun str_nat :: "nat \<Rightarrow> string" where
  "str_nat n = (if n < 10 then [digit_char n] else str_nat (n div 10) @ [digit_char (n mod 10)])"

declare str_nat.simps [simp del]

text \<open>
  The file system, as \<open>base_file.exists()\<close> sees it, has two parts. \<open>fs\<close> is the set of
  the paths that exist at the moment of the call. \<open>stat_raises\<close> holds of the paths on which
  the underlying \<open>stat\<close> fails with an error that \<open>exists()\<close> does not turn into
  \<open>False\<close> (it does so only for a missing path and the like); on such a path
  \<open>exists()\<close> raises \<open>OSError\<close>, and nothing in \<open>generate_unique_filename\<close> catches it.
  Otherwise \<open>exists()\<close> is \<open>base_file \<in> fs\<close>.

  \<^verbatim>\<open>while base_file.exists():
      base_file = output_path / f"{title}_{i}.{extension}"
      i += 1
  return base_file\<close>
  The loop has no bound of its own; a run that never leaves the loop has the value \<open>None\<close>,
  a run ended by the exception the value \<open>Some (Inl ''OSError'')\<close>, and a run that returns
  \<open>base_file\<close> the value \<open>Some (Inr base_file)\<close>.
\<close>

partial_function (option) generate_unique_filename_loop ::
    "(path \<Rightarrow> bool) \<Rightarrow> path set \<Rightarrow> path \<Rightarrow> string \<Rightarrow> string \<Rightarrow> path \<Rightarrow> nat \<Rightarrow> (string + path) option" where
  "generate_unique_filename_loop stat_raises fs output_path title extension base_file i =
     (if stat_raises base_file then Some (Inl ''OSError'')
      else if base_file \<in> fs
      then generate_unique_filename_loop stat_raises fs output_path title extension
             (joinpath output_path (title @ ''_'' @ str_nat i @ ''.'' @ extension)) (i + 1)
      else Some (Inr base_file))"

declare generate_unique_filename_loop.simps [code]

text \<open>
  \<^verbatim>\<open>base_file = output_path / f"{title}.{extension}"
  i = 1\<close>
  followed by the loop.
\<close>

definition generate_unique_filename ::
    "(path \<Rightarrow> bool) \<Rightarrow> path set \<Rightarrow> path \<Rightarrow> string \<Rightarrow> string \<Rightarrow> (string + path) option" where
  "generate_unique_filename stat_raises fs output_path title extension =
     generate_unique_filename_loop stat_raises fs output_path title extension
       (joinpath output_path (title @ ''.'' @ extension)) 1"

text \<open>
  The common cause of the exception: a file name, the part of the path after the last
  separator, of more than 255 bytes, for which \<open>stat\<close> fails with \<open>ENAMETOOLONG\<close>. A
  character is a code point below 256; in the UTF-8 encoding of the file name it takes one
  byte below 128 and two bytes from 128 on.
\<close>

definition basename :: "path \<Rightarrow> string" where
  "basename p = rev (takeWhile (\<lambda>c. c \<noteq> CHR ''/'') (rev p))"

definition utf8_length :: "string \<Rightarrow> nat" where
  "utf8_length s = sum_list (map (\<lambda>c. if of_char c < (128 :: nat) then 1 else 2) s)"

definition name_too_long :: "path \<Rightarrow> bool" where
  "name_too_long p = (255 < utf8_length (basename p))"

text \<open>
  The probe sequence as the specification words it: \<open>title.ext\<close> has index 0, and
  \<open>title_k.ext\<close> has index \<open>k\<close> for \<open>k \<ge> 1\<close>.
\<close>

definition candidate :: "path \<Rightarrow> string \<Rightarrow> string \<Rightarrow> nat \<Rightarrow> path" where
  "candidate dir title ext k =
     (if k = 0 then joinpath dir (title @ ''.'' @ ext)
      else joinpath dir (title @ ''_'' @ str_nat k @ ''.'' @ ext))"

text \<open>
  A probe decides the loop when \<open>exists()\<close> raises on it or reports it absent; the
  result of the loop at that probe is the exception or the path.
\<close>

definition decides :: "(path \<Rightarrow> bool) \<Rightarrow> path set \<Rightarrow> path \<Rightarrow> bool" where
  "decides stat_raises fs p = (stat_raises p \<or> p \<notin> fs)"

definition verdict :: "(path \<Rightarrow> bool) \<Rightarrow> path \<Rightarrow> string + path" where
  "verdict stat_raises p = (if stat_raises p then Inl ''OSError'' else Inr p)"

text \<open>Reading a decimal numeral back, used to show that \<open>str_nat\<close> is injective.\<close>

definition digit_value :: "char \<Rightarrow> nat" where
  "digit_value c = of_char c - 48"

definition nat_of_str :: "string \<Rightarrow> nat" where
  "nat_of_str cs = foldl (\<lambda>a c. 10 * a + digit_value c) 0 cs"

section \<open>The interactive programs\<close>

subsection \<open>String methods used on the typed lines\<close>

text \<open>
  \<open>s.startswith(p)\<close>, \<open>s.strip()\<close> and \<open>s.lower()\<close>, on strings of code points below
  256. \<open>strip\<close> removes at both ends the characters for which \<open>str.isspace\<close> holds:
  \<open>0x09\<close> to \<open>0x0D\<close>, \<open>0x1C\<close> to \<open>0x1F\<close>, the space, \<open>0x85\<close> and \<open>0xA0\<close>.
  \<open>lower\<close> maps \<open>A\<close> to \<open>Z\<close> to \<open>a\<close> to \<open>z\<close>, and the upper-case letters \<open>0xC0\<close> to
  \<open>0xDE\<close> (all but the sign \<open>0xD7\<close>) to the letters 32 positions further on.
\<close>

definition startswith :: "string \<Rightarrow> string \<Rightarrow> bool" where
  "startswith s p = (take (length p) s = p)"

definition isspace :: "char \<Rightarrow> bool" where
  "isspace c = (c \<in> set [CHR 0x09, CHR 0x0A, CHR 0x0B, CHR 0x0C, CHR 0x0D,
                          CHR 0x1C, CHR 0x1D, CHR 0x1E, CHR 0x1F, CHR '' '',
                          CHR 0x85, CHR 0xA0])"

definition strip :: "string \<Rightarrow> string" where
  "strip s = rev (dropWhile isspace (rev (dropWhile isspace s)))"

definition upper_letters :: string where
  "upper_letters = ''ABCDEFGHIJKLMNOPQRSTUVWXYZ'' @
          [CHR 0xC0, CHR 0xC1, CHR 0xC2, CHR 0xC3, CHR 0xC4, CHR 0xC5, CHR 0xC6, CHR 0xC7,
           CHR 0xC8, CHR 0xC9, CHR 0xCA, CHR 0xCB, CHR 0xCC, CHR 0xCD, CHR 0xCE, CHR 0xCF,
           CHR 0xD0, CHR 0xD1, CHR 0xD2, CHR 0xD3, CHR 0xD4, CHR 0xD5, CHR 0xD6, CHR 0xD8,
           CHR 0xD9, CHR 0xDA, CHR 0xDB, CHR 0xDC, CHR 0xDD, CHR 0xDE]"

definition lower_letters :: string where
  "lower_letters = ''abcdefghijklmnopqrstuvwxyz'' @
          [CHR 0xE0, CHR 0xE1, CHR 0xE2, CHR 0xE3, CHR 0xE4, CHR 0xE5, CHR 0xE6, CHR 0xE7,
           CHR 0xE8, CHR 0xE9, CHR 0xEA, CHR 0xEB, CHR 0xEC, CHR 0xED, CHR 0xEE, CHR 0xEF,
           CHR 0xF0, CHR 0xF1, CHR 0xF2, CHR 0xF3, CHR 0xF4, CHR 0xF5, CHR 0xF6, CHR 0xF8,
           CHR 0xF9, CHR 0xFA, CHR 0xFB, CHR 0xFC, CHR 0xFD, CHR 0xFE]"

definition lower_char :: "char \<Rightarrow> char" where
  "lower_char c = (case map_of (zip upper_letters lower_letters) c of Some l \<Rightarrow> l | None \<Rightarrow> c)"

definition lower :: "string \<Rightarrow> string" where
  "lower s = map lower_char s"

subsection \<open>The world: file system, terminal and collaborators\<close>

text \<open>
  The options dictionary handed to \<open>yt_dlp.YoutubeDL\<close>; a post-processor entry is the
  triple of its \<open>key\<close>, \<open>preferredcodec\<close> and \<open>preferredquality\<close>.
\<close>

record ydl_opts =
  format :: string
  outtmpl :: string
  merge_output_format :: "string option"
  postprocessors :: "(string \<times> string \<times> string) list"

text \<open>
  What the program does to the outside, in order: reading a line after a prompt, log
  records (the fixed part of the message), and the calls to the collaborators.
\<close>

datatype event =
    Input string
  | Log_info string
  | Log_error string
  | Mkdir path
  | Ydl ydl_opts string
  | Generate_unique_filename path string string
  | Ffmpeg path path "(string \<times> string) list"
  | Unlink path
  | Rename path path
  | Utime path

record world =
  files :: "path set"
  trace :: "event list"

definition emit :: "event \<Rightarrow> world \<Rightarrow> world" where
  "emit e w = w\<lparr>trace := trace w @ [e]\<rparr>"

text \<open>
  The collaborators. \<open>ydl\<close> is what \<open>extract_info\<close> followed by \<open>download\<close> does for
  given options and URL: it raises \<open>DownloadError\<close>, or it returns the metadata (of which
  only the \<open>title\<close> entry is read, and which may lack it) and has written the file.
  \<open>ffmpeg_run\<close> is \<open>True\<close> when \<open>run()\<close> returns, having written the output, and
  \<open>False\<close> when it raises \<open>ffmpeg.Error\<close>. \<open>stat_error\<close> holds of the paths on which
  \<open>exists()\<close> raises \<open>OSError\<close>.
\<close>

datatype fetched = DownloadError | Info "string option"

record env =
  home :: path
  which_ffmpeg :: bool
  stat_error :: "path \<Rightarrow> bool"
  ydl :: "ydl_opts \<Rightarrow> string \<Rightarrow> fetched"
  ffmpeg_run :: "path \<Rightarrow> path \<Rightarrow> (string \<times> string) list \<Rightarrow> bool"

text \<open>
  How a run over the lines typed so far ends: \<open>main\<close> has returned; or the lines are
  used up and the program waits in \<open>input()\<close>; or an exception no handler catches has
  ended it (\<open>OSError\<close> from \<open>exists()\<close> in \<open>generate_unique_filename\<close>, which no script
  catches, or \<open>FileNotFoundError\<close>); or it never leaves the loop of
  \<open>generate_unique_filename\<close>.
\<close>

datatype outcome =
    Returned world
  | Blocked world
  | Raised string world
  | Diverged world

text \<open>The result of reading from the terminal: a value and the lines left, or no line left.\<close>

datatype 'a reading = Got 'a "string list" world | Starved world

text \<open>\<open>input(prompt)\<close>: shows the prompt and returns the next typed line.\<close>

definition input :: "string \<Rightarrow> string list \<Rightarrow> world \<Rightarrow> string reading" where
  "input prompt ins w =
     (case ins of [] \<Rightarrow> Starved (emit (Input prompt) w)
      | line # rest \<Rightarrow> Got line rest (emit (Input prompt) w))"

text \<open>
  \<open>file_path.unlink()\<close> and \<open>os.remove(file_path)\<close> raise \<open>FileNotFoundError\<close> when the
  path does not exist; \<open>file_path.rename(output_file)\<close> likewise.
\<close>

definition unlink :: "path \<Rightarrow> world \<Rightarrow> string + world" where
  "unlink p w =
     (if p \<in> files w then Inr ((emit (Unlink p) w)\<lparr>files := files w - {p}\<rparr>)
      else Inl ''FileNotFoundError'')"

definition rename :: "path \<Rightarrow> path \<Rightarrow> world \<Rightarrow> string + world" where
  "rename p q w =
     (if p \<in> files w then Inr ((emit (Rename p q) w)\<lparr>files := insert q (files w - {p})\<rparr>)
      else Inl ''FileNotFoundError'')"

text \<open>Python's truth value of a string that may be \<open>None\<close>: false for \<open>None\<close> and for \<open>''\<close>.\<close>

definition truthy :: "string option \<Rightarrow> bool" where
  "truthy t = (case t of None \<Rightarrow> False | Some s \<Rightarrow> s \<noteq> [])"

subsection \<open>ytmediadownload.py\<close>

text \<open>The two option dictionaries of \<open>download_media\<close>.\<close>

definition download_media_opts :: "path \<Rightarrow> string \<Rightarrow> ydl_opts" where
  "download_media_opts download_path format_choice =
     (if format_choice = ''mp3''
      then \<lparr>format = ''bestaudio/best'',
            outtmpl = joinpath download_path ''audio.%(ext)s'',
            merge_output_format = None,
            postprocessors = [(''FFmpegExtractAudio'', ''m4a'', ''192'')]\<rparr>
      else \<lparr>format = ''bestvideo+bestaudio/best'',
            outtmpl = joinpath download_path ''video.%(ext)s'',
            merge_output_format = Some ''mp4'',
            postprocessors = []\<rparr>)"

text \<open>
  \<open>download_media\<close>: the \<open>try\<close> block returns the file path and the sanitized title;
  the \<open>except yt_dlp.DownloadError\<close> block logs and returns \<open>(None, None)\<close>.
\<close>

definition download_media ::
    "env \<Rightarrow> string \<Rightarrow> path \<Rightarrow> string \<Rightarrow> world \<Rightarrow> (path option \<times> string option) \<times> world" where
  "download_media env url download_path format_choice w =
     (let opts = download_media_opts download_path format_choice;
          w1 = emit (Ydl opts url) w
      in case ydl env opts url of
           Info t \<Rightarrow>
             let title = sanitize_filename (case t of Some s \<Rightarrow> s | None \<Rightarrow> ''video'');
                 file_path = (if format_choice = ''mp3'' then joinpath download_path ''audio.m4a''
                              else joinpath download_path ''video.mp4'');
                 w2 = emit (Log_info ''Download complete.'') (w1\<lparr>files := insert file_path (files w1)\<rparr>)
             in ((Some file_path, Some title), w2)
         | DownloadError \<Rightarrow> ((None, None), emit (Log_error ''Download error'') w1))"

text \<open>
  \<open>convert_to_mp3\<close>: \<open>Inl\<close> when \<open>generate_unique_filename\<close> does not return or raises
  (the \<open>except\<close> clause names \<open>ffmpeg.Error\<close> only), otherwise the output file or
  \<open>None\<close> after \<open>ffmpeg.Error\<close>.
\<close>

definition convert_to_mp3 ::
    "env \<Rightarrow> path \<Rightarrow> path \<Rightarrow> string \<Rightarrow> world \<Rightarrow> outcome + (path option \<times> world)" where
  "convert_to_mp3 env input_file output_path title w =
     (let w1 = emit (Generate_unique_filename output_path title ''mp3'') w
      in case generate_unique_filename (stat_error env) (files w1) output_path title ''mp3'' of
           None \<Rightarrow> Inl (Diverged w1)
         | Some (Inl e) \<Rightarrow> Inl (Raised e w1)
         | Some (Inr output_file) \<Rightarrow>
             let kwargs = [(''audio_bitrate'', ''192k'')];
                 w2 = emit (Ffmpeg input_file output_file kwargs) w1
             in if ffmpeg_run env input_file output_file kwargs
                then Inr (Some output_file,
                          emit (Log_info ''Conversion to MP3 complete.'')
                            (w2\<lparr>files := insert output_file (files w2)\<rparr>))
                else Inr (None, emit (Log_error ''Conversion error'') w2))"

definition reencode_to_mp4 :: "env \<Rightarrow> path \<Rightarrow> path \<Rightarrow> world \<Rightarrow> path option \<times> world" where
  "reencode_to_mp4 env input_file output_file w =
     (let kwargs = [(''vcodec'', ''libx264''), (''acodec'', ''aac''), (''audio_bitrate'', ''192k'')];
          w1 = emit (Ffmpeg input_file output_file kwargs) w
      in if ffmpeg_run env input_file output_file kwargs
         then (Some output_file,
               emit (Log_info ''Re-encoding to MP4 complete.'') (w1\<lparr>files := insert output_file (files w1)\<rparr>))
         else (None, emit (Log_error ''Re-encoding error'') w1))"

text \<open>
  \<open>prompt_user_input\<close>: the two \<open>while True\<close> loops, each reading lines until one is
  accepted.
\<close>

fun prompt_url :: "string list \<Rightarrow> world \<Rightarrow> string reading" where
  "prompt_url [] w = Starved (emit (Input ''Enter the URL of the YouTube video: '') w)"
| "prompt_url (url # ins) w =
     (let w1 = emit (Input ''Enter the URL of the YouTube video: '') w
      in if startswith url ''https://www.youtube.com/'' then Got url ins w1
         else prompt_url ins (emit (Log_error ''Invalid YouTube URL. Please provide a valid URL.'') w1))"

fun prompt_format :: "string list \<Rightarrow> world \<Rightarrow> string reading" where
  "prompt_format [] w = Starved (emit (Input ''Choose format (mp3/mp4): '') w)"
| "prompt_format (line # ins) w =
     (let w1 = emit (Input ''Choose format (mp3/mp4): '') w;
          format_choice = lower (strip line)
      in if format_choice \<in> set [''mp3'', ''mp4''] then Got format_choice ins w1
         else prompt_format ins (emit (Log_error ''Invalid choice. Please choose 'mp3' or 'mp4'.'') w1))"

definition prompt_user_input :: "string list \<Rightarrow> world \<Rightarrow> (string \<times> string) reading" where
  "prompt_user_input ins w =
     (case prompt_url ins w of
        Starved w1 \<Rightarrow> Starved w1
      | Got url ins1 w1 \<Rightarrow>
          (case prompt_format ins1 w1 of
             Starved w2 \<Rightarrow> Starved w2
           | Got format_choice ins2 w2 \<Rightarrow> Got (url, format_choice) ins2 w2))"

text \<open>\<open>prompt_continue\<close>: reads lines until one is \<open>yes\<close> or \<open>no\<close>.\<close>

fun prompt_continue :: "string list \<Rightarrow> world \<Rightarrow> string reading" where
  "prompt_continue [] w = Starved (emit (Input ''Do you want to download another video? (yes/no): '') w)"
| "prompt_continue (line # ins) w =
     (let w1 = emit (Input ''Do you want to download another video? (yes/no): '') w;
          continue_choice = lower (strip line)
      in if continue_choice \<in> set [''yes'', ''no''] then Got continue_choice ins w1
         else prompt_continue ins (emit (Log_error ''Invalid input. Please enter 'yes' or 'no'.'') w1))"

text \<open>
  The body of the \<open>while True\<close> loop of \<open>main\<close> between \<open>prompt_user_input\<close> and
  \<open>prompt_continue\<close>: \<open>Inr\<close> the world in which \<open>prompt_continue\<close> is called, \<open>Inl\<close>
  when the program ends before.
\<close>

definition process :: "env \<Rightarrow> path \<Rightarrow> string \<Rightarrow> string \<Rightarrow> world \<Rightarrow> outcome + world" where
  "process env download_path url format_choice w =
     (case download_media env url download_path format_choice w of
        ((Some file_path, title), w1) \<Rightarrow>
          if truthy title then
            (if format_choice = ''mp3'' then
               (case convert_to_mp3 env file_path download_path (the title)
                       (emit (Log_info ''Attempting to convert to MP3...'') w1) of
                  Inl out \<Rightarrow> Inl out
                | Inr (mp3_file, w2) \<Rightarrow>
                    let w3 = (case mp3_file of
                                Some _ \<Rightarrow> emit (Log_info ''MP3 file saved as'') w2
                              | None \<Rightarrow> emit (Log_error ''Failed to convert to MP3.'') w2)
                    in (case unlink file_path w3 of
                          Inr w4 \<Rightarrow> Inr w4
                        | Inl e \<Rightarrow> Inr (emit (Log_error ''Error removing temporary file'') w3)))
             else
               (let w2 = emit (Generate_unique_filename download_path (the title) ''mp4'') w1
                in case generate_unique_filename (stat_error env) (files w2) download_path (the title) ''mp4'' of
                     None \<Rightarrow> Inl (Diverged w2)
                   | Some (Inl e) \<Rightarrow> Inl (Raised e w2)
                   | Some (Inr output_file) \<Rightarrow>
                       (case reencode_to_mp4 env file_path output_file w2 of
                          (Some _, w3) \<Rightarrow>
                            (case unlink file_path w3 of
                               Inl e \<Rightarrow> Inl (Raised e w3)
                             | Inr w4 \<Rightarrow> Inr (emit (Log_info ''MP4 file saved as'') w4))
                        | (None, w3) \<Rightarrow> Inr (emit (Log_error ''Failed to re-encode MP4 file.'') w3))))
          else Inr w1
      | ((None, title), w1) \<Rightarrow> Inr w1)"

lemma prompt_url_shorter: "prompt_url ins w = Got x ins1 w1 \<Longrightarrow> length ins1 < length ins"
proof (induction ins arbitrary: w)
  case Nil
  then show ?case by simp
next
  case (Cons line ins)
  then show ?case
    by (fastforce simp: Let_def split: if_splits)
qed

lemma prompt_format_shorter: "prompt_format ins w = Got x ins1 w1 \<Longrightarrow> length ins1 < length ins"
proof (induction ins arbitrary: w)
  case Nil
  then show ?case by simp
next
  case (Cons line ins)
  then show ?case
    by (fastforce simp: Let_def split: if_splits)
qed

lemma prompt_continue_shorter: "prompt_continue ins w = Got x ins1 w1 \<Longrightarrow> length ins1 < length ins"
proof (induction ins arbitrary: w)
  case Nil
  then show ?case by simp
next
  case (Cons line ins)
  then show ?case
    by (fastforce simp: Let_def split: if_splits)
qed

lemma prompt_user_input_shorter:
  "prompt_user_input ins w = Got x ins1 w1 \<Longrightarrow> length ins1 < length ins"
  by (auto simp: prompt_user_input_def split: reading.splits
      dest!: prompt_url_shorter prompt_format_shorter)

function main_loop :: "env \<Rightarrow> path \<Rightarrow> string list \<Rightarrow> world \<Rightarrow> outcome" where
  "main_loop env download_path ins w =
     (case prompt_user_input ins w of
        Starved w1 \<Rightarrow> Blocked w1
      | Got (url, format_choice) ins1 w1 \<Rightarrow>
          (case process env download_path url format_choice w1 of
             Inl out \<Rightarrow> out
           | Inr w2 \<Rightarrow>
               (case prompt_continue ins1 w2 of
                  Starved w3 \<Rightarrow> Blocked w3
                | Got continue_choice ins2 w3 \<Rightarrow>
                    if continue_choice \<noteq> ''yes'' then Returned w3
                    else main_loop env download_path ins2 w3)))"
  by pat_completeness auto
termination
proof (relation "measure (\<lambda>(env, download_path, ins, w). length ins)", goal_cases)
  case 1
  show ?case by simp
next
  case (2 env download_path ins w x ins1 w1 url format_choice w2 y ins2 w3)
  then show ?case
    by (auto dest!: prompt_user_input_shorter prompt_continue_shorter)
qed

declare main_loop.simps [simp del]

definition main :: "env \<Rightarrow> string list \<Rightarrow> world \<Rightarrow> outcome" where
  "main env ins w =
     (let download_path = joinpath (home env) ''Downloads'';
          w1 = (emit (Mkdir download_path) w)\<lparr>files := insert download_path (files w)\<rparr>
      in if \<not> which_ffmpeg env
         then Returned (emit (Log_error ''ffmpeg is not installed. Please install it to use this script.'') w1)
         else main_loop env download_path ins w1)"

subsection \<open>ytmediaqualityselect.py and ytmediadownload.py.py\<close>

text \<open>
  \<open>download_video\<close> and \<open>convert_to_mp3\<close> are the same in the two files but for the text
  of the error record, which is the first parameter here.
\<close>

definition download_video_opts :: "path \<Rightarrow> string \<Rightarrow> string option \<Rightarrow> ydl_opts" where
  "download_video_opts download_path format_choice video_quality =
     (let ydl_opts_audio =
            \<lparr>format = ''bestaudio/best'',
             outtmpl = joinpath download_path ''audio.%(ext)s'',
             merge_output_format = None,
             postprocessors = [(''FFmpegExtractAudio'', ''m4a'', ''192'')]\<rparr>;
          ydl_opts_video =
            \<lparr>format = video_format video_quality,
             outtmpl = joinpath download_path ''video.%(ext)s'',
             merge_output_format = Some ''mp4'',
             postprocessors = []\<rparr>
      in if format_choice = ''mp3'' then ydl_opts_audio else ydl_opts_video)"

definition download_video ::
    "string \<Rightarrow> env \<Rightarrow> string \<Rightarrow> path \<Rightarrow> string \<Rightarrow> string \<Rightarrow> string option \<Rightarrow> world
      \<Rightarrow> (path option \<times> string option) \<times> world" where
  "download_video msg env url download_path format_choice audio_quality video_quality w =
     (let opts = download_video_opts download_path format_choice video_quality;
          w1 = emit (Ydl opts url) w
      in case ydl env opts url of
           Info t \<Rightarrow>
             let title = replace_slashes (case t of Some s \<Rightarrow> s | None \<Rightarrow> ''video'');
                 file_path = (if format_choice = ''mp3'' then joinpath download_path ''audio.m4a''
                              else joinpath download_path ''video.mp4'');
                 w2 = emit (Log_info ''Download complete.'') (w1\<lparr>files := insert file_path (files w1)\<rparr>)
             in ((Some file_path, Some title), w2)
         | DownloadError \<Rightarrow> ((None, None), emit (Log_error msg) w1))"

definition convert_to_mp3_quality ::
    "string \<Rightarrow> env \<Rightarrow> path \<Rightarrow> path \<Rightarrow> string \<Rightarrow> string \<Rightarrow> world \<Rightarrow> outcome + (path option \<times> world)" where
  "convert_to_mp3_quality msg env input_file output_path title quality w =
     (let kwargs = [(''audio_bitrate'', bitrate quality)];
          w1 = emit (Generate_unique_filename output_path title ''mp3'') w
      in case generate_unique_filename (stat_error env) (files w1) output_path title ''mp3'' of
           None \<Rightarrow> Inl (Diverged w1)
         | Some (Inl e) \<Rightarrow> Inl (Raised e w1)
         | Some (Inr output_file) \<Rightarrow>
             let w2 = emit (Ffmpeg input_file output_file kwargs) w1
             in if ffmpeg_run env input_file output_file kwargs
                then Inr (Some output_file,
                          emit (Log_info (''Conversion to MP3 with '' @ quality @ '' quality complete.''))
                            (w2\<lparr>files := insert output_file (files w2)\<rparr>))
                else Inr (None, emit (Log_error msg) w2))"

text \<open>
  \<open>prompt_user_input\<close> of ytmediaqualityselect.py: each prompt is shown once, and an
  answer that is not accepted makes the function return four \<open>None\<close>, here \<open>None\<close>.
  In ytmediadownload.py.py the same statements stand at the head of the loop body of
  \<open>main\<close>, with \<open>continue\<close> in the place of the \<open>return\<close>.
\<close>

definition prompt_quality ::
    "string \<Rightarrow> string \<Rightarrow> string list \<Rightarrow> world \<Rightarrow> (string \<times> string \<times> string \<times> string option) option reading" where
  "prompt_quality url format_choice ins w =
     (if format_choice = ''mp3'' then
        (case input ''Choose audio quality (low/medium/high): '' ins w of
           Starved w1 \<Rightarrow> Starved w1
         | Got line ins1 w1 \<Rightarrow>
             let audio_quality = lower (strip line)
             in if audio_quality \<notin> set [''low'', ''medium'', ''high'']
                then Got None ins1
                       (emit (Log_error ''Invalid choice. Please choose 'low', 'medium', or 'high'.'') w1)
                else Got (Some (url, format_choice, audio_quality, None)) ins1 w1)
      else
        (case input ''Choose video quality (720p/1080p/1440p): '' ins w of
           Starved w1 \<Rightarrow> Starved w1
         | Got line ins1 w1 \<Rightarrow>
             let video_quality = lower (strip line)
             in if video_quality \<notin> set [''720p'', ''1080p'', ''1440p'']
                then Got None ins1
                       (emit (Log_error ''Invalid choice. Please choose '720p', '1080p', or '1440p'.'') w1)
                else Got (Some (url, format_choice, ''medium'', Some video_quality)) ins1 w1))"

definition prompt_user_input_quality ::
    "string list \<Rightarrow> world \<Rightarrow> (string \<times> string \<times> string \<times> string option) option reading" where
  "prompt_user_input_quality ins w =
     (case input ''Enter the URL of the YouTube video: '' ins w of
        Starved w1 \<Rightarrow> Starved w1
      | Got url ins1 w1 \<Rightarrow>
          if \<not> startswith url ''https://www.youtube.com/''
          then Got None ins1 (emit (Log_error ''Invalid YouTube URL. Please provide a valid URL.'') w1)
          else
            (case input ''Choose format (mp3/mp4): '' ins1 w1 of
               Starved w2 \<Rightarrow> Starved w2
             | Got line ins2 w2 \<Rightarrow>
                 let format_choice = lower (strip line)
                 in if format_choice \<notin> set [''mp3'', ''mp4'']
                    then Got None ins2 (emit (Log_error ''Invalid choice. Please choose 'mp3' or 'mp4'.'') w2)
                    else prompt_quality url format_choice ins2 w2))"

text \<open>
  The loop body of \<open>main\<close> from \<open>download_video\<close> up to the continue prompt, in both
  files; \<open>msgs\<close> are the texts of the three error records that differ.
\<close>

definition process_quality ::
    "string \<times> string \<times> string \<Rightarrow> env \<Rightarrow> path \<Rightarrow> string \<Rightarrow> string \<Rightarrow> string \<Rightarrow> string option \<Rightarrow> world
      \<Rightarrow> outcome + world" where
  "process_quality msgs env download_path url format_choice audio_quality video_quality w =
     (case msgs of (msg_download, msg_convert, msg_unlink) \<Rightarrow>
      case download_video msg_download env url download_path format_choice audio_quality video_quality w of
        ((Some file_path, title), w1) \<Rightarrow>
          if truthy title then
            (if format_choice = ''mp3'' then
               (case convert_to_mp3_quality msg_convert env file_path download_path (the title) audio_quality w1 of
                  Inl out \<Rightarrow> Inl out
                | Inr (mp3_file, w2) \<Rightarrow>
                    let w3 = (case mp3_file of
                                Some _ \<Rightarrow> emit (Log_info ''MP3 file saved as'') w2
                              | None \<Rightarrow> emit (Log_error ''Failed to convert to MP3.'') w2)
                    in (case unlink file_path w3 of
                          Inr w4 \<Rightarrow> Inr w4
                        | Inl e \<Rightarrow> Inr (emit (Log_error msg_unlink) w3)))
             else
               (let w2 = emit (Generate_unique_filename download_path (the title) ''mp4'') w1
                in case generate_unique_filename (stat_error env) (files w2) download_path (the title) ''mp4'' of
                     None \<Rightarrow> Inl (Diverged w2)
                   | Some (Inl e) \<Rightarrow> Inl (Raised e w2)
                   | Some (Inr output_file) \<Rightarrow>
                       (case rename file_path output_file w2 of
                          Inl e \<Rightarrow> Inl (Raised e w2)
                        | Inr w3 \<Rightarrow> Inr (emit (Log_info ''MP4 file saved as'') (emit (Utime output_file) w3)))))
          else Inr w1
      | ((None, title), w1) \<Rightarrow> Inr w1)"

definition msgs_qualityselect :: "string \<times> string \<times> string" where
  "msgs_qualityselect = (''Download error'', ''Conversion error'', ''Error removing temporary file'')"

definition msgs_download_py :: "string \<times> string \<times> string" where
  "msgs_download_py =
     (''An error occurred during download'', ''An error occurred during conversion'',
      ''An error occurred while removing the temporary file'')"

lemma input_shorter: "input prompt ins w = Got x ins1 w1 \<Longrightarrow> length ins1 < length ins"
  by (auto simp: input_def split: list.splits)

lemma prompt_quality_shorter:
  "prompt_quality url format_choice ins w = Got x ins1 w1 \<Longrightarrow> length ins1 < length ins"
  by (auto simp: prompt_quality_def Let_def split: if_splits reading.splits dest!: input_shorter)

lemma prompt_user_input_quality_shorter:
  "prompt_user_input_quality ins w = Got x ins1 w1 \<Longrightarrow> length ins1 < length ins"
  by (auto simp: prompt_user_input_quality_def Let_def split: if_splits reading.splits
      dest!: input_shorter prompt_quality_shorter)

text \<open>
  The loop of \<open>main\<close> in ytmediaqualityselect.py. Its last statement is
  \<^verbatim>\<open>if input("Do you want to convert another video? (yes/no): ").strip().lower() != 'yes': break\<close>
\<close>

function main_loop_qualityselect :: "env \<Rightarrow> path \<Rightarrow> string list \<Rightarrow> world \<Rightarrow> outcome" where
  "main_loop_qualityselect env download_path ins w =
     (case prompt_user_input_quality ins w of
        Starved w1 \<Rightarrow> Blocked w1
      | Got None ins1 w1 \<Rightarrow> main_loop_qualityselect env download_path ins1 w1
      | Got (Some (url, format_choice, audio_quality, video_quality)) ins1 w1 \<Rightarrow>
          (case process_quality msgs_qualityselect env download_path url format_choice
                  audio_quality video_quality w1 of
             Inl out \<Rightarrow> out
           | Inr w2 \<Rightarrow>
               (case input ''Do you want to convert another video? (yes/no): '' ins1 w2 of
                  Starved w3 \<Rightarrow> Blocked w3
                | Got line ins2 w3 \<Rightarrow>
                    if lower (strip line) \<noteq> ''yes'' then Returned w3
                    else main_loop_qualityselect env download_path ins2 w3)))"
  by pat_completeness auto
termination
proof (relation "measure (\<lambda>(env, download_path, ins, w). length ins)", goal_cases)
  case 1
  show ?case by simp
next
  case 2
  then show ?case by (auto dest!: prompt_user_input_quality_shorter)
next
  case 3
  then show ?case by (auto dest!: prompt_user_input_quality_shorter input_shorter)
qed

declare main_loop_qualityselect.simps [simp del]

definition main_qualityselect :: "env \<Rightarrow> string list \<Rightarrow> world \<Rightarrow> outcome" where
  "main_qualityselect env ins w =
     (let download_path = joinpath (home env) ''Downloads'';
          w1 = (emit (Mkdir download_path) w)\<lparr>files := insert download_path (files w)\<rparr>
      in if \<not> which_ffmpeg env
         then Returned (emit (Log_error ''ffmpeg is not installed. Please install it to use this script.'') w1)
         else main_loop_qualityselect env download_path ins w1)"

text \<open>
  The inner \<open>while True\<close> at the end of the loop body of \<open>main\<close> in ytmediadownload.py.py:
  \<open>yes\<close> leaves it, \<open>no\<close> returns from \<open>main\<close>, any other answer is asked again.
\<close>

fun prompt_another :: "string list \<Rightarrow> world \<Rightarrow> string reading" where
  "prompt_another [] w = Starved (emit (Input ''Do you want to convert another video? (yes/no): '') w)"
| "prompt_another (line # ins) w =
     (let w1 = emit (Input ''Do you want to convert another video? (yes/no): '') w;
          another = lower (strip line)
      in if another = ''yes'' then Got another ins w1
         else if another = ''no'' then Got another ins w1
         else prompt_another ins (emit (Log_error ''Invalid input. Please enter 'yes' or 'no'.'') w1))"

lemma prompt_another_shorter: "prompt_another ins w = Got x ins1 w1 \<Longrightarrow> length ins1 < length ins"
proof (induction ins arbitrary: w)
  case Nil
  then show ?case by simp
next
  case (Cons line ins)
  then show ?case
    by (fastforce simp: Let_def split: if_splits)
qed

function main_loop_download_py :: "env \<Rightarrow> path \<Rightarrow> string list \<Rightarrow> world \<Rightarrow> outcome" where
  "main_loop_download_py env download_path ins w =
     (case prompt_user_input_quality ins w of
        Starved w1 \<Rightarrow> Blocked w1
      | Got None ins1 w1 \<Rightarrow> main_loop_download_py env download_path ins1 w1
      | Got (Some (url, format_choice, audio_quality, video_quality)) ins1 w1 \<Rightarrow>
          (case process_quality msgs_download_py env download_path url format_choice
                  audio_quality video_quality w1 of
             Inl out \<Rightarrow> out
           | Inr w2 \<Rightarrow>
               (case prompt_another ins1 w2 of
                  Starved w3 \<Rightarrow> Blocked w3
                | Got another ins2 w3 \<Rightarrow>
                    if another = ''yes'' then main_loop_download_py env download_path ins2 w3
                    else Returned w3)))"
  by pat_completeness auto
termination
proof (relation "measure (\<lambda>(env, download_path, ins, w). length ins)", goal_cases)
  case 1
  show ?case by simp
next
  case 2
  then show ?case by (auto dest!: prompt_user_input_quality_shorter)
next
  case 3
  then show ?case by (auto dest!: prompt_user_input_quality_shorter prompt_another_shorter)
qed

declare main_loop_download_py.simps [simp del]

definition main_download_py :: "env \<Rightarrow> string list \<Rightarrow> world \<Rightarrow> outcome" where
  "main_download_py env ins w =
     (let download_path = joinpath (home env) ''Downloads''
      in if \<not> which_ffmpeg env
         then Returned (emit (Log_error ''ffmpeg is not installed. Please install it to use this script.'') w)
         else main_loop_download_py env download_path ins w)"

section \<open>Properties of the sanitizer\<close>

lemma replace_char_comp:
  "replace_char a CHR ''_'' (map (\<lambda>c. if c \<in> A then CHR ''_'' else c) s)
     = map (\<lambda>c. if c \<in> insert a A then CHR ''_'' else c) s"
  by (induction s) (auto simp: replace_char_def)

lemma foldl_replace:
  "foldl (\<lambda>t char. replace_char char CHR ''_'' t) (map (\<lambda>c. if c \<in> A then CHR ''_'' else c) s) cs
     = map (\<lambda>c. if c \<in> A \<union> set cs then CHR ''_'' else c) s"
proof (induction cs arbitrary: A)
  case Nil
  show ?case by simp
next
  case (Cons a cs)
  have "insert a A \<union> set cs = A \<union> set (a # cs)" by auto
  with Cons [of "insert a A"] show ?case
    by (simp only: foldl_Cons replace_char_comp)
qed

text \<open>The fold is one pass that maps every invalid character to the underscore.\<close>

lemma sanitize_filename_map:
  "sanitize_filename title = map (\<lambda>c. if c \<in> set invalid_chars then CHR ''_'' else c) title"
  using foldl_replace [of "{}" title invalid_chars] by (simp add: sanitize_filename_def)

lemma underscore_valid: "CHR ''_'' \<notin> set invalid_chars"
  by (simp add: invalid_chars_def)

text \<open>
  \<open>sanitize_filename\<close> of ytmediadownload.py does what the specification of the sanitizer
  says: every character of the output is outside the set of the nine invalid characters,
  each invalid character of the input is an underscore in the output at the same position
  and every other character is unchanged; a title without invalid characters is returned
  as it is.
\<close>

theorem sanitize_filename_spec:
  "set (sanitize_filename title) \<inter> set invalid_chars = {}
   \<and> length (sanitize_filename title) = length title
   \<and> (\<forall>i < length title.
        sanitize_filename title ! i = (if title ! i \<in> set invalid_chars then CHR ''_'' else title ! i))
   \<and> (set title \<inter> set invalid_chars = {} \<longrightarrow> sanitize_filename title = title)
   \<and> set invalid_chars =
        {CHR ''<'', CHR ''>'', CHR '':'', CHR 0x22, CHR ''/'', CHR 0x5C, CHR ''|'', CHR ''?'', CHR ''*''}"
proof (intro conjI)
  show "set (sanitize_filename title) \<inter> set invalid_chars = {}"
    using underscore_valid by (auto simp: sanitize_filename_map)
  show "length (sanitize_filename title) = length title"
    by (simp add: sanitize_filename_map)
  show "\<forall>i < length title.
        sanitize_filename title ! i = (if title ! i \<in> set invalid_chars then CHR ''_'' else title ! i)"
    by (simp add: sanitize_filename_map)
  show "set title \<inter> set invalid_chars = {} \<longrightarrow> sanitize_filename title = title"
    unfolding sanitize_filename_map by (intro impI map_idI) auto
  show "set invalid_chars =
        {CHR ''<'', CHR ''>'', CHR '':'', CHR 0x22, CHR ''/'', CHR 0x5C, CHR ''|'', CHR ''?'', CHR ''*''}"
    by (simp add: invalid_chars_def)
qed

theorem sanitize_filename_spec_witness:
  "sanitize_filename ''a<b>c:d/e|f?g*h'' = ''a_b_c_d_e_f_g_h''
   \<and> sanitize_filename [CHR ''x'', CHR 0x22, CHR 0x5C, CHR ''y''] = ''x__y''
   \<and> sanitize_filename ''My Title_1'' = ''My Title_1''"
proof -
  have a: "set ''My Title_1'' \<inter> set invalid_chars = {}"
    by (simp add: invalid_chars_def)
  have "sanitize_filename ''My Title_1'' = ''My Title_1''"
    using sanitize_filename_spec [of "''My Title_1''"] a by blast
  moreover have "sanitize_filename ''a<b>c:d/e|f?g*h'' = ''a_b_c_d_e_f_g_h''"
    by (simp add: sanitize_filename_def invalid_chars_def replace_char_def)
  moreover have "sanitize_filename [CHR ''x'', CHR 0x22, CHR 0x5C, CHR ''y''] = ''x__y''"
    by (simp add: sanitize_filename_def invalid_chars_def replace_char_def)
  ultimately show ?thesis by simp
qed

text \<open>
  C10: the sanitizer is idempotent and keeps the length of the title.
\<close>

theorem sanitize_filename_idem_length:
  "sanitize_filename (sanitize_filename title) = sanitize_filename title
   \<and> length (sanitize_filename title) = length title"
  using underscore_valid by (simp add: sanitize_filename_map)

text \<open>
  The replacement in \<open>download_video\<close> of the two other scripts covers the two path
  separators only and leaves the seven other characters in place.
\<close>

lemma replace_slashes_map:
  "replace_slashes title = map (\<lambda>c. if c \<in> {CHR ''/'', CHR 0x5C} then CHR ''_'' else c) title"
  by (induction title) (simp_all add: replace_slashes_def replace_char_def)

text \<open>
  C3: \<open>download_video\<close> of ytmediaqualityselect.py and ytmediadownload.py.py, given the
  title \<open>a:b?/c\<close> by the download collaborator, returns the title \<open>a:b?_c\<close>, which still
  holds the colon and the question mark; \<open>sanitize_filename\<close> returns \<open>a_b__c\<close>.
\<close>

theorem download_video_keeps_invalid_chars:
  "fst (download_video ''Download error''
          \<lparr>home = ''/home/u'', which_ffmpeg = True, stat_error = name_too_long, ydl = (\<lambda>opts url. Info (Some ''a:b?/c'')),
           ffmpeg_run = (\<lambda>src dst kwargs. True)\<rparr>
          ''https://www.youtube.com/watch?v=x'' ''/home/u/Downloads'' ''mp3'' ''low'' None
          \<lparr>files = {}, trace = []\<rparr>)
     = (Some ''/home/u/Downloads/audio.m4a'', Some ''a:b?_c'')
   \<and> set ''a:b?_c'' \<inter> set invalid_chars = {CHR '':'', CHR ''?''}
   \<and> sanitize_filename ''a:b?/c'' = ''a_b__c''"
proof (intro conjI)
  show "fst (download_video ''Download error''
          \<lparr>home = ''/home/u'', which_ffmpeg = True, stat_error = name_too_long, ydl = (\<lambda>opts url. Info (Some ''a:b?/c'')),
           ffmpeg_run = (\<lambda>src dst kwargs. True)\<rparr>
          ''https://www.youtube.com/watch?v=x'' ''/home/u/Downloads'' ''mp3'' ''low'' None
          \<lparr>files = {}, trace = []\<rparr>)
     = (Some ''/home/u/Downloads/audio.m4a'', Some ''a:b?_c'')"
    by (simp add: download_video_def Let_def replace_slashes_def replace_char_def joinpath_def)
  show "set ''a:b?_c'' \<inter> set invalid_chars = {CHR '':'', CHR ''?''}"
    by (auto simp: invalid_chars_def)
  show "sanitize_filename ''a:b?/c'' = ''a_b__c''"
    by (simp add: sanitize_filename_def invalid_chars_def replace_char_def)
qed

section \<open>Properties of the quality tables\<close>

lemma bitrate_if:
  "bitrate quality = (if quality = ''low'' then ''128k'' else if quality = ''medium'' then ''192k''
     else if quality = ''high'' then ''320k'' else ''192k'')"
  by (simp add: bitrate_def bitrates_def dict_get_def)
text \<open>
  C4: the audio table maps low, medium and high to 128k, 192k and 320k, and
  every other label to the default 192k.
\<close>

theorem bitrate_spec:
  "bitrate ''low'' = ''128k'' \<and> bitrate ''medium'' = ''192k'' \<and> bitrate ''high'' = ''320k''
   \<and> (\<forall>quality. quality \<notin> {''low'', ''medium'', ''high''} \<longrightarrow> bitrate quality = ''192k'')"
proof (intro conjI allI impI)
  show "bitrate ''low'' = ''128k''" by (simp add: bitrate_def bitrates_def dict_get_def)
  show "bitrate ''medium'' = ''192k''" by (simp add: bitrate_def bitrates_def dict_get_def)
  show "bitrate ''high'' = ''320k''" by (simp add: bitrate_def bitrates_def dict_get_def)
  fix quality :: string
  assume "quality \<notin> {''low'', ''medium'', ''high''}"
  then have "quality \<noteq> ''low''" "quality \<noteq> ''medium''" "quality \<noteq> ''high''"
    by (simp_all only: insert_iff empty_iff de_Morgan_disj not_False_eq_True simp_thms)
  then show "bitrate quality = ''192k''"
    by (simp only: bitrate_if if_False)
qed
theorem bitrate_spec_witness:
  "''unknown'' \<notin> {''low'', ''medium'', ''high''} \<and> bitrate ''unknown'' = ''192k''"
proof -
  have a: "''unknown'' \<notin> {''low'', ''medium'', ''high''}" by simp
  note b = bitrate_spec [THEN conjunct2, THEN conjunct2, THEN conjunct2, rule_format, OF a]
  from a b show ?thesis by (rule conjI)
qed

lemma video_format_if:
  "video_format (Some label) =
     (if label = ''720p'' then ''bestvideo[height<=720]+bestaudio/best''
      else if label = ''1080p'' then ''bestvideo[height<=1080]+bestaudio/best''
      else if label = ''1440p'' then ''bestvideo[height<=1440]+bestaudio/best''
      else ''bestvideo+bestaudio/best'')"
  by (simp add: video_format_def quality_formats_def dict_get_def)

lemma video_format_None: "video_format None = ''bestvideo+bestaudio/best''"
  by (simp add: video_format_def quality_formats_def dict_get_def)

text \<open>
  C5: the video table maps 720p, 1080p and 1440p to the height-capped selectors, and
  every other label to the uncapped selector.
\<close>

theorem video_format_spec:
  "video_format (Some ''720p'') = ''bestvideo[height<=720]+bestaudio/best''
   \<and> video_format (Some ''1080p'') = ''bestvideo[height<=1080]+bestaudio/best''
   \<and> video_format (Some ''1440p'') = ''bestvideo[height<=1440]+bestaudio/best''
   \<and> (\<forall>label. label \<notin> {''720p'', ''1080p'', ''1440p''} \<longrightarrow>
         video_format (Some label) = ''bestvideo+bestaudio/best'')"
proof (intro conjI allI impI)
  show "video_format (Some ''720p'') = ''bestvideo[height<=720]+bestaudio/best''"
    by (simp add: video_format_def quality_formats_def dict_get_def)
  show "video_format (Some ''1080p'') = ''bestvideo[height<=1080]+bestaudio/best''"
    by (simp add: video_format_def quality_formats_def dict_get_def)
  show "video_format (Some ''1440p'') = ''bestvideo[height<=1440]+bestaudio/best''"
    by (simp add: video_format_def quality_formats_def dict_get_def)
  fix label :: string
  assume "label \<notin> {''720p'', ''1080p'', ''1440p''}"
  then have "label \<noteq> ''720p''" "label \<noteq> ''1080p''" "label \<noteq> ''1440p''"
    by (simp_all only: insert_iff empty_iff de_Morgan_disj not_False_eq_True simp_thms)
  then show "video_format (Some label) = ''bestvideo+bestaudio/best''"
    by (simp only: video_format_if if_False)
qed

theorem video_format_spec_witness:
  "''bogus'' \<notin> {''720p'', ''1080p'', ''1440p''} \<and> video_format (Some ''bogus'') = ''bestvideo+bestaudio/best''"
proof -
  have a: "''bogus'' \<notin> {''720p'', ''1080p'', ''1440p''}" by simp
  note b = video_format_spec [THEN conjunct2, THEN conjunct2, THEN conjunct2, rule_format, OF a]
  from a b show ?thesis by (rule conjI)
qed
section \<open>Properties of the filename allocator\<close>

lemma digit_value_digit_char: "d < 10 \<Longrightarrow> digit_value (digit_char d) = d"
proof -
  assume "d < 10"
  then have "d \<in> {0, 1, 2, 3, 4, 5, 6, 7, 8, 9}" by auto
  then show ?thesis
    by (auto simp: digit_value_def digit_char_def)
qed

lemma nat_of_str_snoc: "nat_of_str (cs @ [c]) = 10 * nat_of_str cs + digit_value c"
  by (simp add: nat_of_str_def)

lemma nat_of_str_str_nat: "nat_of_str (str_nat n) = n"
proof (induction n rule: str_nat.induct)
  case (1 n)
  show ?case
  proof (cases "n < 10")
    case True
    then show ?thesis
      by (simp add: str_nat.simps [of n] nat_of_str_def digit_value_digit_char)
  next
    case False
    with "1" have "nat_of_str (str_nat (n div 10)) = n div 10" by simp
    with False show ?thesis
      by (simp add: str_nat.simps [of n] nat_of_str_snoc digit_value_digit_char)
  qed
qed

lemma str_nat_inj: "str_nat m = str_nat n \<Longrightarrow> m = n"
  by (metis nat_of_str_str_nat)

lemma candidate_inj: "inj (candidate dir title ext)"
proof (rule injI)
  fix j k
  assume eq: "candidate dir title ext j = candidate dir title ext k"
  show "j = k"
  proof (cases "j = 0"; cases "k = 0")
    assume "j \<noteq> 0" "k \<noteq> 0"
    with eq show ?thesis
      by (simp add: candidate_def joinpath_def str_nat_inj)
  qed (use eq in \<open>simp_all add: candidate_def joinpath_def\<close>)
qed

lemma generate_unique_filename_loop_reaches:
  assumes "\<forall>j. k \<le> j \<and> j < m \<longrightarrow> \<not> decides stat_raises fs (candidate dir title ext j)"
      and "decides stat_raises fs (candidate dir title ext m)"
      and "k \<le> m"
  shows "generate_unique_filename_loop stat_raises fs dir title ext (candidate dir title ext k) (Suc k)
           = Some (verdict stat_raises (candidate dir title ext m))"
  using assms
proof (induction "m - k" arbitrary: k)
  case 0
  then have "k = m" by simp
  with "0.prems" show ?case
    by (subst generate_unique_filename_loop.simps) (auto simp: decides_def verdict_def)
next
  case (Suc d)
  then have km: "k < m" by simp
  with Suc.prems have inn: "\<not> decides stat_raises fs (candidate dir title ext k)" by simp
  have "generate_unique_filename_loop stat_raises fs dir title ext (candidate dir title ext (Suc k)) (Suc (Suc k))
          = Some (verdict stat_raises (candidate dir title ext m))"
    using Suc.hyps Suc.prems km by (intro Suc.hyps(1)) auto
  moreover have "generate_unique_filename_loop stat_raises fs dir title ext (candidate dir title ext k) (Suc k)
      = generate_unique_filename_loop stat_raises fs dir title ext (candidate dir title ext (Suc k)) (Suc (Suc k))"
    using inn by (subst generate_unique_filename_loop.simps) (simp add: candidate_def decides_def)
  ultimately show ?case by simp
qed

lemma generate_unique_filename_first_decisive:
  assumes "\<forall>j<m. \<not> decides stat_raises fs (candidate dir title ext j)"
      and "decides stat_raises fs (candidate dir title ext m)"
  shows "generate_unique_filename stat_raises fs dir title ext
           = Some (verdict stat_raises (candidate dir title ext m))"
proof -
  have "generate_unique_filename_loop stat_raises fs dir title ext (candidate dir title ext 0) (Suc 0)
          = Some (verdict stat_raises (candidate dir title ext m))"
    using assms by (intro generate_unique_filename_loop_reaches) auto
  then show ?thesis
    by (simp add: generate_unique_filename_def candidate_def)
qed

lemma some_candidate_free:
  assumes "finite fs"
  shows "\<exists>m. candidate dir title ext m \<notin> fs"
proof (rule ccontr)
  assume "\<not> ?thesis"
  then have "range (candidate dir title ext) \<subseteq> fs" by auto
  with assms have "finite (range (candidate dir title ext))" by (rule rev_finite_subset)
  then have "finite (UNIV :: nat set)"
    using candidate_inj by (rule finite_imageD)
  then show False by simp
qed

lemma first_decisive_least:
  assumes "decides stat_raises fs (candidate dir title ext n)"
  shows "\<exists>m \<le> n. decides stat_raises fs (candidate dir title ext m)
           \<and> (\<forall>j<m. \<not> decides stat_raises fs (candidate dir title ext j))"
proof -
  define m where "m = (LEAST n. decides stat_raises fs (candidate dir title ext n))"
  have "decides stat_raises fs (candidate dir title ext m)"
    unfolding m_def using assms by (rule LeastI)
  moreover have "\<forall>j<m. \<not> decides stat_raises fs (candidate dir title ext j)"
    unfolding m_def using not_less_Least by blast
  moreover have "m \<le> n"
    unfolding m_def using assms by (rule Least_le)
  ultimately show ?thesis by blast
qed

lemma first_decisive_exists:
  assumes "finite fs"
  shows "\<exists>m. decides stat_raises fs (candidate dir title ext m)
           \<and> (\<forall>j<m. \<not> decides stat_raises fs (candidate dir title ext j))"
proof -
  from some_candidate_free [OF assms, of dir title ext] obtain n
    where "candidate dir title ext n \<notin> fs" by blast
  then have "decides stat_raises fs (candidate dir title ext n)" by (simp add: decides_def)
  from first_decisive_least [OF this] show ?thesis by blast
qed

lemma first_decisive_le_card:
  assumes "finite fs" and "\<forall>j<m. \<not> decides stat_raises fs (candidate dir title ext j)"
  shows "m \<le> card fs"
proof -
  have "candidate dir title ext ` {..<m} \<subseteq> fs" using assms(2) by (auto simp: decides_def)
  then have "card (candidate dir title ext ` {..<m}) \<le> card fs"
    using assms(1) by (intro card_mono)
  moreover have "card (candidate dir title ext ` {..<m}) = card {..<m}"
    by (intro card_image inj_on_subset [OF candidate_inj]) simp
  ultimately show ?thesis by simp
qed

lemma generate_unique_filename_loop_free:
  assumes "generate_unique_filename_loop stat_raises fs dir title ext base_file i = Some (Inr p)"
  shows "p \<notin> fs \<and> \<not> stat_raises p"
proof -
  have "\<forall>p. r = Inr p \<longrightarrow> p \<notin> fs \<and> \<not> stat_raises p"
    if "generate_unique_filename_loop stat_raises fs dir title ext base_file i = Some r" for r
  proof (rule generate_unique_filename_loop.raw_induct
      [where P = "\<lambda>stat_raises fs _ _ _ _ _ r. \<forall>p. r = Inr p \<longrightarrow> p \<notin> fs \<and> \<not> stat_raises p", OF _ that])
    fix f :: "(path \<Rightarrow> bool) \<Rightarrow> path set \<Rightarrow> path \<Rightarrow> string \<Rightarrow> string \<Rightarrow> path \<Rightarrow> nat \<Rightarrow> (string + path) option"
    fix sr fs' d t e b j y
    assume IH: "\<And>sr fs d t e b j y. f sr fs d t e b j = Some y \<Longrightarrow> \<forall>p. y = Inr p \<longrightarrow> p \<notin> fs \<and> \<not> sr p"
      and step: "(if sr b then Some (Inl ''OSError'')
            else if b \<in> fs' then f sr fs' d (t::string) e (joinpath d (t @ ''_'' @ str_nat j @ ''.'' @ e)) (j + 1)
            else Some (Inr b)) = Some y"
    show "\<forall>p. y = Inr p \<longrightarrow> p \<notin> fs' \<and> \<not> sr p"
    proof (cases "sr b")
      case True
      with step show ?thesis by auto
    next
      case False
      show ?thesis
      proof (cases "b \<in> fs'")
        case True
        with step \<open>\<not> sr b\<close>
        have "f sr fs' d t e (joinpath d (t @ ''_'' @ str_nat j @ ''.'' @ e)) (j + 1) = Some y" by simp
        then show ?thesis by (rule IH)
      next
        case nin: False
        with step \<open>\<not> sr b\<close> show ?thesis by auto
      qed
    qed
  qed
  with assms show ?thesis by blast
qed

lemma generate_unique_filename_free:
  "generate_unique_filename stat_raises fs dir title ext = Some (Inr p) \<Longrightarrow> p \<notin> fs \<and> \<not> stat_raises p"
  unfolding generate_unique_filename_def by (rule generate_unique_filename_loop_free)

text \<open>Whatever the set of existing paths, a returned candidate is the first that decides.\<close>

lemma generate_unique_filename_returned_index:
  assumes "generate_unique_filename stat_raises fs dir title ext = Some (Inr (candidate dir title ext i))"
  shows "\<forall>j<i. \<not> decides stat_raises fs (candidate dir title ext j)"
proof -
  from generate_unique_filename_free [OF assms]
  have "decides stat_raises fs (candidate dir title ext i)" by (simp add: decides_def)
  from first_decisive_least [OF this] obtain m
    where m: "decides stat_raises fs (candidate dir title ext m)"
      "\<forall>j<m. \<not> decides stat_raises fs (candidate dir title ext j)" by blast
  from generate_unique_filename_first_decisive [OF m(2) m(1)] assms
  have "verdict stat_raises (candidate dir title ext m) = Inr (candidate dir title ext i)" by simp
  then have "candidate dir title ext m = candidate dir title ext i"
    by (simp add: verdict_def split: if_splits)
  then have "m = i" using candidate_inj by (auto dest: injD)
  with m(2) show ?thesis by simp
qed


lemma str_nat_digit: "n < 10 \<Longrightarrow> str_nat n = [digit_char n]"
  by (simp add: str_nat.simps [of n])

lemma candidate_0: "candidate dir title ext 0 = joinpath dir (title @ ''.'' @ ext)"
  by (simp add: candidate_def)

lemma candidate_1: "candidate dir title ext (Suc 0) = joinpath dir (title @ ''_1.'' @ ext)"
  by (simp add: candidate_def str_nat_digit digit_char_def)

lemma candidate_2: "candidate dir title ext 2 = joinpath dir (title @ ''_2.'' @ ext)"
  by (simp add: candidate_def str_nat_digit digit_char_def)

lemma basename_joinpath:
  assumes "CHR ''/'' \<notin> set name"
  shows "basename (joinpath dir name) = name"
proof -
  have "takeWhile (\<lambda>c. c \<noteq> CHR ''/'') (rev name @ CHR ''/'' # rev dir) = rev name"
    using assms by (subst takeWhile_append2) auto
  then show ?thesis by (simp add: basename_def joinpath_def)
qed

lemma utf8_length_append: "utf8_length (xs @ ys) = utf8_length xs + utf8_length ys"
  by (simp add: utf8_length_def)

lemma utf8_length_replicate_ascii:
  "of_char c < (128 :: nat) \<Longrightarrow> utf8_length (replicate n c) = n"
  by (induction n) (simp_all add: utf8_length_def)

text \<open>
  C1: for every finite set of existing paths the allocator comes to an end; it returns a
  path when \<open>exists()\<close> raises on none of the candidates it can reach; and whatever the
  set, a path it returns is not in the set: the last existence check before the return saw
  it absent.
\<close>

theorem generate_unique_filename_fresh:
  "(finite fs \<longrightarrow> (\<exists>r. generate_unique_filename stat_raises fs output_path title extension = Some r))
   \<and> (finite fs \<and> (\<forall>k \<le> card fs. \<not> stat_raises (candidate output_path title extension k)) \<longrightarrow>
        (\<exists>p. generate_unique_filename stat_raises fs output_path title extension = Some (Inr p)))
   \<and> (\<forall>p. generate_unique_filename stat_raises fs output_path title extension = Some (Inr p) \<longrightarrow> p \<notin> fs)"
proof (intro conjI impI allI)
  assume "finite fs"
  from first_decisive_exists [OF this, of stat_raises output_path title extension]
  show "\<exists>r. generate_unique_filename stat_raises fs output_path title extension = Some r"
    using generate_unique_filename_first_decisive by blast
next
  assume a: "finite fs \<and> (\<forall>k \<le> card fs. \<not> stat_raises (candidate output_path title extension k))"
  then have fin: "finite fs" by simp
  from first_decisive_exists [OF fin, of stat_raises output_path title extension] obtain m
    where m: "decides stat_raises fs (candidate output_path title extension m)"
      "\<forall>j<m. \<not> decides stat_raises fs (candidate output_path title extension j)" by blast
  from first_decisive_le_card [OF fin m(2)] a
  have "\<not> stat_raises (candidate output_path title extension m)" by simp
  with generate_unique_filename_first_decisive [OF m(2) m(1)]
  show "\<exists>p. generate_unique_filename stat_raises fs output_path title extension = Some (Inr p)"
    by (simp add: verdict_def)
next
  fix p
  assume "generate_unique_filename stat_raises fs output_path title extension = Some (Inr p)"
  from generate_unique_filename_free [OF this] show "p \<notin> fs" by simp
qed

lemma name_ok_t:
  "\<not> name_too_long ''/home/u/Downloads/t.mp3''" "\<not> name_too_long ''/home/u/Downloads/t_1.mp3''"
  by (simp_all add: name_too_long_def basename_def utf8_length_def)

theorem generate_unique_filename_fresh_witness:
  "finite {''/home/u/Downloads/t.mp3''}
   \<and> card {''/home/u/Downloads/t.mp3''} = 1
   \<and> \<not> name_too_long (candidate ''/home/u/Downloads'' ''t'' ''mp3'' 0)
   \<and> \<not> name_too_long (candidate ''/home/u/Downloads'' ''t'' ''mp3'' 1)
   \<and> generate_unique_filename name_too_long {''/home/u/Downloads/t.mp3''} ''/home/u/Downloads'' ''t'' ''mp3''
       = Some (Inr ''/home/u/Downloads/t_1.mp3'')
   \<and> ''/home/u/Downloads/t_1.mp3'' \<notin> {''/home/u/Downloads/t.mp3''}"
proof -
  let ?fs = "{''/home/u/Downloads/t.mp3''}"
  have f: "finite ?fs" and c: "card ?fs = 1" by simp_all
  have ok: "\<not> name_too_long (candidate ''/home/u/Downloads'' ''t'' ''mp3'' 0)"
      "\<not> name_too_long (candidate ''/home/u/Downloads'' ''t'' ''mp3'' 1)"
    by (simp_all add: candidate_0 candidate_1 joinpath_def name_ok_t)
  have all: "\<forall>k \<le> card ?fs. \<not> name_too_long (candidate ''/home/u/Downloads'' ''t'' ''mp3'' k)"
  proof (intro allI impI)
    fix k :: nat assume "k \<le> card ?fs"
    then have "k = 0 \<or> k = 1" by auto
    with ok show "\<not> name_too_long (candidate ''/home/u/Downloads'' ''t'' ''mp3'' k)" by auto
  qed
  note t = generate_unique_filename_fresh [of ?fs name_too_long "''/home/u/Downloads''" "''t''" "''mp3''"]
  from t f all obtain p
    where p: "generate_unique_filename name_too_long ?fs ''/home/u/Downloads'' ''t'' ''mp3'' = Some (Inr p)"
    by blast
  with t have nin: "p \<notin> ?fs" by blast
  have e: "generate_unique_filename name_too_long ?fs ''/home/u/Downloads'' ''t'' ''mp3''
       = Some (Inr ''/home/u/Downloads/t_1.mp3'')"
    by (simp add: generate_unique_filename_def generate_unique_filename_loop.simps joinpath_def
        str_nat_digit digit_char_def name_ok_t)
  with p have "p = ''/home/u/Downloads/t_1.mp3''" by simp
  with nin have "''/home/u/Downloads/t_1.mp3'' \<notin> ?fs" by simp
  with f c ok e show ?thesis by blast
qed

text \<open>The first three probes, whatever the paths on which \<open>exists()\<close> raises.\<close>

lemma generate_unique_filename_first_three:
  "(\<not> stat_raises (joinpath dir (title @ ''.'' @ ext)) \<and> joinpath dir (title @ ''.'' @ ext) \<notin> fs \<longrightarrow>
      generate_unique_filename stat_raises fs dir title ext = Some (Inr (joinpath dir (title @ ''.'' @ ext))))
   \<and> (\<not> stat_raises (joinpath dir (title @ ''.'' @ ext)) \<and> joinpath dir (title @ ''.'' @ ext) \<in> fs
        \<and> \<not> stat_raises (joinpath dir (title @ ''_1.'' @ ext)) \<and> joinpath dir (title @ ''_1.'' @ ext) \<notin> fs \<longrightarrow>
      generate_unique_filename stat_raises fs dir title ext = Some (Inr (joinpath dir (title @ ''_1.'' @ ext))))
   \<and> (\<not> stat_raises (joinpath dir (title @ ''.'' @ ext)) \<and> joinpath dir (title @ ''.'' @ ext) \<in> fs
        \<and> \<not> stat_raises (joinpath dir (title @ ''_1.'' @ ext)) \<and> joinpath dir (title @ ''_1.'' @ ext) \<in> fs
        \<and> \<not> stat_raises (joinpath dir (title @ ''_2.'' @ ext)) \<and> joinpath dir (title @ ''_2.'' @ ext) \<notin> fs \<longrightarrow>
      generate_unique_filename stat_raises fs dir title ext = Some (Inr (joinpath dir (title @ ''_2.'' @ ext))))"
proof (intro conjI impI)
  assume "\<not> stat_raises (joinpath dir (title @ ''.'' @ ext)) \<and> joinpath dir (title @ ''.'' @ ext) \<notin> fs"
  then have a: "decides stat_raises fs (candidate dir title ext 0)"
      and r: "\<not> stat_raises (candidate dir title ext 0)"
    by (simp_all add: candidate_0 decides_def)
  have "\<forall>j<0. \<not> decides stat_raises fs (candidate dir title ext j)" by simp
  then have "generate_unique_filename stat_raises fs dir title ext
               = Some (verdict stat_raises (candidate dir title ext 0))"
    using a by (rule generate_unique_filename_first_decisive)
  with r show "generate_unique_filename stat_raises fs dir title ext
                 = Some (Inr (joinpath dir (title @ ''.'' @ ext)))"
    by (simp add: candidate_0 verdict_def)
next
  assume "\<not> stat_raises (joinpath dir (title @ ''.'' @ ext)) \<and> joinpath dir (title @ ''.'' @ ext) \<in> fs
        \<and> \<not> stat_raises (joinpath dir (title @ ''_1.'' @ ext)) \<and> joinpath dir (title @ ''_1.'' @ ext) \<notin> fs"
  then have a: "\<not> decides stat_raises fs (candidate dir title ext 0)"
      "decides stat_raises fs (candidate dir title ext 1)"
      and r: "\<not> stat_raises (candidate dir title ext 1)"
    by (simp_all add: candidate_0 candidate_1 decides_def)
  have "\<forall>j<1. \<not> decides stat_raises fs (candidate dir title ext j)" using a(1) by simp
  then have "generate_unique_filename stat_raises fs dir title ext
               = Some (verdict stat_raises (candidate dir title ext 1))"
    using a(2) by (rule generate_unique_filename_first_decisive)
  with r show "generate_unique_filename stat_raises fs dir title ext
                 = Some (Inr (joinpath dir (title @ ''_1.'' @ ext)))"
    by (simp add: candidate_1 verdict_def)
next
  assume "\<not> stat_raises (joinpath dir (title @ ''.'' @ ext)) \<and> joinpath dir (title @ ''.'' @ ext) \<in> fs
        \<and> \<not> stat_raises (joinpath dir (title @ ''_1.'' @ ext)) \<and> joinpath dir (title @ ''_1.'' @ ext) \<in> fs
        \<and> \<not> stat_raises (joinpath dir (title @ ''_2.'' @ ext)) \<and> joinpath dir (title @ ''_2.'' @ ext) \<notin> fs"
  then have a: "\<not> decides stat_raises fs (candidate dir title ext 0)"
      "\<not> decides stat_raises fs (candidate dir title ext 1)"
      "decides stat_raises fs (candidate dir title ext 2)"
      and r: "\<not> stat_raises (candidate dir title ext 2)"
    by (simp_all add: candidate_0 candidate_1 candidate_2 decides_def)
  have "\<forall>j<2. \<not> decides stat_raises fs (candidate dir title ext j)"
  proof (intro allI impI)
    fix j :: nat assume "j < 2"
    then have "j = 0 \<or> j = 1" by auto
    with a show "\<not> decides stat_raises fs (candidate dir title ext j)" by auto
  qed
  then have "generate_unique_filename stat_raises fs dir title ext
               = Some (verdict stat_raises (candidate dir title ext 2))"
    using a(3) by (rule generate_unique_filename_first_decisive)
  with r show "generate_unique_filename stat_raises fs dir title ext
                 = Some (Inr (joinpath dir (title @ ''_2.'' @ ext)))"
    by (simp add: candidate_2 verdict_def)
qed

lemma name_ok_t_mp3:
  "\<not> name_too_long (joinpath dir ''t.mp3'')" "\<not> name_too_long (joinpath dir ''t_1.mp3'')"
  "\<not> name_too_long (joinpath dir ''t_2.mp3'')"
proof -
  have "basename (joinpath dir ''t.mp3'') = ''t.mp3''" "basename (joinpath dir ''t_1.mp3'') = ''t_1.mp3''"
    "basename (joinpath dir ''t_2.mp3'') = ''t_2.mp3''"
    by (simp_all add: basename_joinpath)
  then show "\<not> name_too_long (joinpath dir ''t.mp3'')" "\<not> name_too_long (joinpath dir ''t_1.mp3'')"
    "\<not> name_too_long (joinpath dir ''t_2.mp3'')"
    by (simp_all add: name_too_long_def utf8_length_def)
qed

text \<open>
  C2: when \<open>exists()\<close> raises on none of the probed paths, the allocator returns
  \<open>dir/title.ext\<close> when that path does not exist, \<open>dir/title_1.ext\<close> when only the first
  exists, and \<open>dir/title_2.ext\<close> when the first two exist. For the title \<open>t\<close> and the
  extension \<open>mp3\<close>, whose file names are short, this holds in every directory: it returns
  \<open>dir/t.mp3\<close> in an empty directory, \<open>dir/t_1.mp3\<close> if \<open>dir/t.mp3\<close> exists, and
  \<open>dir/t_2.mp3\<close> if both \<open>dir/t.mp3\<close> and \<open>dir/t_1.mp3\<close> exist.
\<close>

theorem generate_unique_filename_probe_sequence:
  "((\<not> stat_raises (joinpath dir (title @ ''.'' @ ext)) \<and> joinpath dir (title @ ''.'' @ ext) \<notin> fs \<longrightarrow>
      generate_unique_filename stat_raises fs dir title ext = Some (Inr (joinpath dir (title @ ''.'' @ ext))))
   \<and> (\<not> stat_raises (joinpath dir (title @ ''.'' @ ext)) \<and> joinpath dir (title @ ''.'' @ ext) \<in> fs
        \<and> \<not> stat_raises (joinpath dir (title @ ''_1.'' @ ext)) \<and> joinpath dir (title @ ''_1.'' @ ext) \<notin> fs \<longrightarrow>
      generate_unique_filename stat_raises fs dir title ext = Some (Inr (joinpath dir (title @ ''_1.'' @ ext))))
   \<and> (\<not> stat_raises (joinpath dir (title @ ''.'' @ ext)) \<and> joinpath dir (title @ ''.'' @ ext) \<in> fs
        \<and> \<not> stat_raises (joinpath dir (title @ ''_1.'' @ ext)) \<and> joinpath dir (title @ ''_1.'' @ ext) \<in> fs
        \<and> \<not> stat_raises (joinpath dir (title @ ''_2.'' @ ext)) \<and> joinpath dir (title @ ''_2.'' @ ext) \<notin> fs \<longrightarrow>
      generate_unique_filename stat_raises fs dir title ext = Some (Inr (joinpath dir (title @ ''_2.'' @ ext)))))
   \<and> generate_unique_filename name_too_long {} dir ''t'' ''mp3'' = Some (Inr (joinpath dir ''t.mp3''))
   \<and> (joinpath dir ''t.mp3'' \<in> fs \<and> joinpath dir ''t_1.mp3'' \<notin> fs \<longrightarrow>
        generate_unique_filename name_too_long fs dir ''t'' ''mp3'' = Some (Inr (joinpath dir ''t_1.mp3'')))
   \<and> (joinpath dir ''t.mp3'' \<in> fs \<and> joinpath dir ''t_1.mp3'' \<in> fs \<and> joinpath dir ''t_2.mp3'' \<notin> fs \<longrightarrow>
        generate_unique_filename name_too_long fs dir ''t'' ''mp3'' = Some (Inr (joinpath dir ''t_2.mp3'')))"
proof (intro conjI)
  show "generate_unique_filename name_too_long {} dir ''t'' ''mp3'' = Some (Inr (joinpath dir ''t.mp3''))"
    using generate_unique_filename_first_three [of name_too_long dir "''t''" "''mp3''" "{}"]
      name_ok_t_mp3 [of dir]
    by simp
  show "joinpath dir ''t.mp3'' \<in> fs \<and> joinpath dir ''t_1.mp3'' \<notin> fs \<longrightarrow>
        generate_unique_filename name_too_long fs dir ''t'' ''mp3'' = Some (Inr (joinpath dir ''t_1.mp3''))"
    using generate_unique_filename_first_three [of name_too_long dir "''t''" "''mp3''" fs]
      name_ok_t_mp3 [of dir]
    by simp
  show "joinpath dir ''t.mp3'' \<in> fs \<and> joinpath dir ''t_1.mp3'' \<in> fs \<and> joinpath dir ''t_2.mp3'' \<notin> fs \<longrightarrow>
        generate_unique_filename name_too_long fs dir ''t'' ''mp3'' = Some (Inr (joinpath dir ''t_2.mp3''))"
    using generate_unique_filename_first_three [of name_too_long dir "''t''" "''mp3''" fs]
      name_ok_t_mp3 [of dir]
    by simp
qed (use generate_unique_filename_first_three [of stat_raises dir title ext fs] in blast)+

lemma name_ok_dir:
  "\<not> name_too_long ''dir/t.mp3''" "\<not> name_too_long ''dir/t_1.mp3''" "\<not> name_too_long ''dir/t_2.mp3''"
  "\<not> name_too_long ''dir/t_3.mp3''"
  by (simp_all add: name_too_long_def basename_def utf8_length_def)

theorem generate_unique_filename_probe_sequence_witness:
  "generate_unique_filename name_too_long {} ''dir'' ''t'' ''mp3'' = Some (Inr ''dir/t.mp3'')
   \<and> generate_unique_filename name_too_long {''dir/t.mp3''} ''dir'' ''t'' ''mp3'' = Some (Inr ''dir/t_1.mp3'')
   \<and> generate_unique_filename name_too_long {''dir/t.mp3'', ''dir/t_1.mp3''} ''dir'' ''t'' ''mp3''
        = Some (Inr ''dir/t_2.mp3'')"
proof (intro conjI)
  show "generate_unique_filename name_too_long {} ''dir'' ''t'' ''mp3'' = Some (Inr ''dir/t.mp3'')"
    using generate_unique_filename_probe_sequence
      [where stat_raises = name_too_long and dir = "''dir''" and title = "''t''" and ext = "''mp3''"
         and fs = "{}"]
    by (simp add: joinpath_def name_ok_dir)
  show "generate_unique_filename name_too_long {''dir/t.mp3''} ''dir'' ''t'' ''mp3'' = Some (Inr ''dir/t_1.mp3'')"
    using generate_unique_filename_probe_sequence
      [where stat_raises = name_too_long and dir = "''dir''" and title = "''t''" and ext = "''mp3''"
         and fs = "{''dir/t.mp3''}"]
    by (simp add: joinpath_def name_ok_dir)
  show "generate_unique_filename name_too_long {''dir/t.mp3'', ''dir/t_1.mp3''} ''dir'' ''t'' ''mp3''
          = Some (Inr ''dir/t_2.mp3'')"
    using generate_unique_filename_probe_sequence
      [where stat_raises = name_too_long and dir = "''dir''" and title = "''t''" and ext = "''mp3''"
         and fs = "{''dir/t.mp3'', ''dir/t_1.mp3''}"]
    by (simp add: joinpath_def name_ok_dir)
qed

lemma long_name_too_long:
  "name_too_long (joinpath dir (replicate 252 CHR ''a'' @ ''.mp3''))"
proof -
  have "CHR ''/'' \<notin> set (replicate 252 CHR ''a'' @ ''.mp3'')" by auto
  then have "basename (joinpath dir (replicate 252 CHR ''a'' @ ''.mp3''))
               = replicate 252 CHR ''a'' @ ''.mp3''"
    by (rule basename_joinpath)
  moreover have "utf8_length (replicate 252 CHR ''a'' @ ''.mp3'') = 256"
    by (simp add: utf8_length_append utf8_length_replicate_ascii) (simp add: utf8_length_def)
  ultimately show ?thesis by (simp add: name_too_long_def)
qed

text \<open>
  In the empty directory \<open>/home/u/Downloads\<close> the title of 252 letters \<open>a\<close> with the
  extension \<open>mp3\<close> gives a file name of 256 bytes, on which \<open>exists()\<close> raises: the
  allocator fails with \<open>OSError\<close>.
\<close>

theorem generate_unique_filename_long_name_raises:
  "generate_unique_filename name_too_long {} ''/home/u/Downloads'' (replicate 252 CHR ''a'') ''mp3''
     = Some (Inl ''OSError'')"
  using long_name_too_long [of "''/home/u/Downloads''"]
  by (simp add: generate_unique_filename_def generate_unique_filename_loop.simps)

text \<open>
  C6: for every finite set of existing paths the probe loop comes to an end after at most
  as many suffixes as there are existing paths. It stops at the first candidate on which
  \<open>exists()\<close> raises or which does not exist: in the first case the allocator fails with
  \<open>OSError\<close>, in the second it returns that candidate. The loop has no cap of its own: for
  every \<open>n\<close> such that \<open>exists()\<close> raises on none of the candidates up to \<open>n\<close>, there is
  a finite directory in which it runs up to suffix \<open>n\<close>.
\<close>

theorem generate_unique_filename_terminates:
  "(finite fs \<longrightarrow>
      (\<exists>k. k \<le> card fs
         \<and> (\<forall>j<k. candidate dir title ext j \<in> fs \<and> \<not> stat_raises (candidate dir title ext j))
         \<and> (if stat_raises (candidate dir title ext k)
             then generate_unique_filename stat_raises fs dir title ext = Some (Inl ''OSError'')
             else candidate dir title ext k \<notin> fs
                  \<and> generate_unique_filename stat_raises fs dir title ext
                      = Some (Inr (candidate dir title ext k)))))
   \<and> ((\<forall>j \<le> n. \<not> stat_raises (candidate dir title ext j)) \<longrightarrow>
         finite (candidate dir title ext ` {..<n})
         \<and> generate_unique_filename stat_raises (candidate dir title ext ` {..<n}) dir title ext
             = Some (Inr (candidate dir title ext n)))"
proof (intro conjI impI)
  assume fin: "finite fs"
  from first_decisive_exists [OF fin, of stat_raises dir title ext] obtain m
    where m: "decides stat_raises fs (candidate dir title ext m)"
      "\<forall>j<m. \<not> decides stat_raises fs (candidate dir title ext j)" by blast
  from first_decisive_le_card [OF fin m(2)] have "m \<le> card fs" .
  moreover from m(2)
  have "\<forall>j<m. candidate dir title ext j \<in> fs \<and> \<not> stat_raises (candidate dir title ext j)"
    by (simp add: decides_def)
  moreover from generate_unique_filename_first_decisive [OF m(2) m(1)] m(1)
  have "if stat_raises (candidate dir title ext m)
        then generate_unique_filename stat_raises fs dir title ext = Some (Inl ''OSError'')
        else candidate dir title ext m \<notin> fs
             \<and> generate_unique_filename stat_raises fs dir title ext = Some (Inr (candidate dir title ext m))"
    by (auto simp: verdict_def decides_def)
  ultimately show "\<exists>k. k \<le> card fs
         \<and> (\<forall>j<k. candidate dir title ext j \<in> fs \<and> \<not> stat_raises (candidate dir title ext j))
         \<and> (if stat_raises (candidate dir title ext k)
             then generate_unique_filename stat_raises fs dir title ext = Some (Inl ''OSError'')
             else candidate dir title ext k \<notin> fs
                  \<and> generate_unique_filename stat_raises fs dir title ext
                      = Some (Inr (candidate dir title ext k)))"
    by blast
next
  assume "\<forall>j \<le> n. \<not> stat_raises (candidate dir title ext j)"
  show "finite (candidate dir title ext ` {..<n})" by simp
next
  assume ok: "\<forall>j \<le> n. \<not> stat_raises (candidate dir title ext j)"
  have "candidate dir title ext n \<notin> candidate dir title ext ` {..<n}"
    using candidate_inj by (auto dest: injD)
  then have d: "decides stat_raises (candidate dir title ext ` {..<n}) (candidate dir title ext n)"
    by (simp add: decides_def)
  have "\<forall>j<n. \<not> decides stat_raises (candidate dir title ext ` {..<n}) (candidate dir title ext j)"
    using ok by (simp add: decides_def)
  from generate_unique_filename_first_decisive [OF this d] ok
  show "generate_unique_filename stat_raises (candidate dir title ext ` {..<n}) dir title ext
        = Some (Inr (candidate dir title ext n))"
    by (simp add: verdict_def)
qed

lemma candidate_dir_t:
  "candidate ''dir'' ''t'' ''mp3'' 0 = ''dir/t.mp3''"
  "candidate ''dir'' ''t'' ''mp3'' (Suc 0) = ''dir/t_1.mp3''"
  "candidate ''dir'' ''t'' ''mp3'' 2 = ''dir/t_2.mp3''"
  by (simp_all add: candidate_0 candidate_1 candidate_2 joinpath_def)

theorem generate_unique_filename_terminates_witness:
  "finite {''dir/t.mp3'', ''dir/t_1.mp3'', ''dir/other.mp3''}
   \<and> card {''dir/t.mp3'', ''dir/t_1.mp3'', ''dir/other.mp3''} = 3
   \<and> generate_unique_filename name_too_long {''dir/t.mp3'', ''dir/t_1.mp3'', ''dir/other.mp3''}
        ''dir'' ''t'' ''mp3'' = Some (Inr (candidate ''dir'' ''t'' ''mp3'' 2))
   \<and> candidate ''dir'' ''t'' ''mp3'' 2 \<notin> {''dir/t.mp3'', ''dir/t_1.mp3'', ''dir/other.mp3''}
   \<and> \<not> name_too_long (candidate ''dir'' ''t'' ''mp3'' 0)
   \<and> \<not> name_too_long (candidate ''dir'' ''t'' ''mp3'' 1)
   \<and> finite (candidate ''dir'' ''t'' ''mp3'' ` {..<1})
   \<and> generate_unique_filename name_too_long (candidate ''dir'' ''t'' ''mp3'' ` {..<1}) ''dir'' ''t'' ''mp3''
        = Some (Inr (candidate ''dir'' ''t'' ''mp3'' 1))"
proof -
  let ?fs = "{''dir/t.mp3'', ''dir/t_1.mp3'', ''dir/other.mp3''}"
  have f: "finite ?fs" by simp
  have c: "card ?fs = 3" by simp
  have e: "generate_unique_filename name_too_long ?fs ''dir'' ''t'' ''mp3''
             = Some (Inr (candidate ''dir'' ''t'' ''mp3'' 2))"
    by (simp add: generate_unique_filename_def generate_unique_filename_loop.simps joinpath_def
        str_nat_digit digit_char_def name_ok_dir candidate_dir_t)
  note t = generate_unique_filename_terminates [of ?fs "''dir''" "''t''" "''mp3''" name_too_long 1]
  from t f obtain k where k: "k \<le> card ?fs"
    "if name_too_long (candidate ''dir'' ''t'' ''mp3'' k)
     then generate_unique_filename name_too_long ?fs ''dir'' ''t'' ''mp3'' = Some (Inl ''OSError'')
     else candidate ''dir'' ''t'' ''mp3'' k \<notin> ?fs
          \<and> generate_unique_filename name_too_long ?fs ''dir'' ''t'' ''mp3''
              = Some (Inr (candidate ''dir'' ''t'' ''mp3'' k))"
    by blast
  from k(2) e have eq: "candidate ''dir'' ''t'' ''mp3'' k = candidate ''dir'' ''t'' ''mp3'' 2"
    and nin: "candidate ''dir'' ''t'' ''mp3'' k \<notin> ?fs"
    by (auto split: if_splits)
  from nin have n: "candidate ''dir'' ''t'' ''mp3'' 2 \<notin> ?fs" unfolding eq .
  have ok: "\<not> name_too_long (candidate ''dir'' ''t'' ''mp3'' 0)"
      "\<not> name_too_long (candidate ''dir'' ''t'' ''mp3'' 1)"
    by (simp_all add: candidate_dir_t name_ok_dir)
  have "\<forall>j \<le> 1. \<not> name_too_long (candidate ''dir'' ''t'' ''mp3'' j)"
  proof (intro allI impI)
    fix j :: nat assume "j \<le> 1"
    then have "j = 0 \<or> j = 1" by auto
    with ok show "\<not> name_too_long (candidate ''dir'' ''t'' ''mp3'' j)" by auto
  qed
  with t have "finite (candidate ''dir'' ''t'' ''mp3'' ` {..<1})
    \<and> generate_unique_filename name_too_long (candidate ''dir'' ''t'' ''mp3'' ` {..<1}) ''dir'' ''t'' ''mp3''
        = Some (Inr (candidate ''dir'' ''t'' ''mp3'' 1))"
    by blast
  with f c e n ok show ?thesis by blast
qed

text \<open>
  C9: the allocator returns the earliest candidate of the sequence that does not exist:
  when it returns the candidate of index \<open>i\<close>, that candidate does not exist and every
  candidate of a smaller index exists.
\<close>

theorem generate_unique_filename_earliest:
  "(finite fs \<and> (\<forall>k \<le> card fs. \<not> stat_raises (candidate dir title ext k)) \<longrightarrow>
      (\<exists>i. generate_unique_filename stat_raises fs dir title ext = Some (Inr (candidate dir title ext i))
           \<and> candidate dir title ext i \<notin> fs
           \<and> (\<forall>j<i. candidate dir title ext j \<in> fs)))
   \<and> (\<forall>i. generate_unique_filename stat_raises fs dir title ext = Some (Inr (candidate dir title ext i)) \<longrightarrow>
          candidate dir title ext i \<notin> fs \<and> (\<forall>j<i. candidate dir title ext j \<in> fs))"
proof (intro conjI impI allI)
  assume a: "finite fs \<and> (\<forall>k \<le> card fs. \<not> stat_raises (candidate dir title ext k))"
  then have fin: "finite fs" by simp
  from first_decisive_exists [OF fin, of stat_raises dir title ext] obtain m
    where m: "decides stat_raises fs (candidate dir title ext m)"
      "\<forall>j<m. \<not> decides stat_raises fs (candidate dir title ext j)" by blast
  from first_decisive_le_card [OF fin m(2)] a
  have r: "\<not> stat_raises (candidate dir title ext m)" by simp
  with generate_unique_filename_first_decisive [OF m(2) m(1)]
  have "generate_unique_filename stat_raises fs dir title ext = Some (Inr (candidate dir title ext m))"
    by (simp add: verdict_def)
  moreover from m(1) r have "candidate dir title ext m \<notin> fs" by (simp add: decides_def)
  moreover from m(2) have "\<forall>j<m. candidate dir title ext j \<in> fs" by (simp add: decides_def)
  ultimately show "\<exists>i. generate_unique_filename stat_raises fs dir title ext = Some (Inr (candidate dir title ext i))
           \<and> candidate dir title ext i \<notin> fs
           \<and> (\<forall>j<i. candidate dir title ext j \<in> fs)"
    by blast
next
  fix i
  assume r: "generate_unique_filename stat_raises fs dir title ext = Some (Inr (candidate dir title ext i))"
  from generate_unique_filename_free [OF r] show "candidate dir title ext i \<notin> fs" by simp
next
  fix i j
  assume r: "generate_unique_filename stat_raises fs dir title ext = Some (Inr (candidate dir title ext i))"
    and "j < i"
  with generate_unique_filename_returned_index [OF r]
  show "candidate dir title ext j \<in> fs" by (simp add: decides_def)
qed

theorem generate_unique_filename_earliest_witness:
  "finite {''dir/t.mp3'', ''dir/t_2.mp3''}
   \<and> card {''dir/t.mp3'', ''dir/t_2.mp3''} = 2
   \<and> \<not> name_too_long (candidate ''dir'' ''t'' ''mp3'' 0)
   \<and> \<not> name_too_long (candidate ''dir'' ''t'' ''mp3'' 1)
   \<and> \<not> name_too_long (candidate ''dir'' ''t'' ''mp3'' 2)
   \<and> generate_unique_filename name_too_long {''dir/t.mp3'', ''dir/t_2.mp3''} ''dir'' ''t'' ''mp3''
        = Some (Inr (candidate ''dir'' ''t'' ''mp3'' 1))
   \<and> candidate ''dir'' ''t'' ''mp3'' 1 = ''dir/t_1.mp3''
   \<and> candidate ''dir'' ''t'' ''mp3'' 1 \<notin> {''dir/t.mp3'', ''dir/t_2.mp3''}
   \<and> candidate ''dir'' ''t'' ''mp3'' 0 \<in> {''dir/t.mp3'', ''dir/t_2.mp3''}"
proof -
  let ?fs = "{''dir/t.mp3'', ''dir/t_2.mp3''}"
  have f: "finite ?fs" and cd: "card ?fs = 2" by simp_all
  have ok: "\<not> name_too_long (candidate ''dir'' ''t'' ''mp3'' 0)"
      "\<not> name_too_long (candidate ''dir'' ''t'' ''mp3'' 1)"
      "\<not> name_too_long (candidate ''dir'' ''t'' ''mp3'' 2)"
    by (simp_all add: candidate_dir_t name_ok_dir)
  have all: "\<forall>k \<le> card ?fs. \<not> name_too_long (candidate ''dir'' ''t'' ''mp3'' k)"
  proof (intro allI impI)
    fix k :: nat assume "k \<le> card ?fs"
    then have "k = 0 \<or> k = 1 \<or> k = 2" by auto
    with ok show "\<not> name_too_long (candidate ''dir'' ''t'' ''mp3'' k)" by auto
  qed
  have c: "candidate ''dir'' ''t'' ''mp3'' 1 = ''dir/t_1.mp3''"
    by (simp add: candidate_dir_t)
  have e: "generate_unique_filename name_too_long ?fs ''dir'' ''t'' ''mp3''
        = Some (Inr (candidate ''dir'' ''t'' ''mp3'' 1))"
    by (simp add: generate_unique_filename_def generate_unique_filename_loop.simps joinpath_def
        str_nat_digit digit_char_def name_ok_dir candidate_dir_t)
  note t = generate_unique_filename_earliest [of ?fs name_too_long "''dir''" "''t''" "''mp3''"]
  from t f all have "\<exists>i. generate_unique_filename name_too_long ?fs ''dir'' ''t'' ''mp3''
                          = Some (Inr (candidate ''dir'' ''t'' ''mp3'' i))"
    by blast
  from t e
  have "candidate ''dir'' ''t'' ''mp3'' 1 \<notin> ?fs
        \<and> (\<forall>j<1. candidate ''dir'' ''t'' ''mp3'' j \<in> ?fs)" by blast
  then have "candidate ''dir'' ''t'' ''mp3'' 1 \<notin> ?fs" "candidate ''dir'' ''t'' ''mp3'' 0 \<in> ?fs"
    by blast+
  with f cd ok c e show ?thesis by blast
qed

section \<open>Properties of the interactive loop\<close>

lemma download_media_error:
  assumes "ydl env (download_media_opts download_path format_choice) url = DownloadError"
  shows "download_media env url download_path format_choice w
           = ((None, None),
              w\<lparr>trace := trace w @ [Ydl (download_media_opts download_path format_choice) url,
                                     Log_error ''Download error'']\<rparr>)"
  using assms by (simp add: download_media_def Let_def emit_def)

lemma process_error:
  assumes "ydl env (download_media_opts download_path format_choice) url = DownloadError"
  shows "process env download_path url format_choice w
           = Inr (w\<lparr>trace := trace w @ [Ydl (download_media_opts download_path format_choice) url,
                                     Log_error ''Download error'']\<rparr>)"
  by (simp add: process_def download_media_error [OF assms])

lemma prompt_user_input_valid:
  assumes "startswith url ''https://www.youtube.com/''"
      and "lower (strip line) \<in> {''mp3'', ''mp4''}"
  shows "prompt_user_input (url # line # ins) w
          = Got (url, lower (strip line)) ins
              (w\<lparr>trace := trace w @ [Input ''Enter the URL of the YouTube video: '',
                                     Input ''Choose format (mp3/mp4): '']\<rparr>)"
  using assms by (auto simp add: prompt_user_input_def Let_def emit_def)


text \<open>
  C7: when the download collaborator raises \<open>DownloadError\<close>, \<open>download_media\<close> returns
  \<open>(None, None)\<close>; the body of the iteration then adds nothing to the trace but the call
  of the collaborator and the error record (no allocation, no transcoding, no deletion) and
  leaves the files as they are; and \<open>main\<close> goes on to the continue prompt, from where
  the answer \<open>yes\<close> starts the next iteration.
\<close>

theorem download_error_skips_iteration:
  assumes "ydl env (download_media_opts download_path format_choice) url = DownloadError"
      and "startswith url ''https://www.youtube.com/''"
      and "lower (strip line) = format_choice"
      and "format_choice \<in> {''mp3'', ''mp4''}"
  shows "download_media env url download_path format_choice w
           = ((None, None),
              w\<lparr>trace := trace w @ [Ydl (download_media_opts download_path format_choice) url,
                                     Log_error ''Download error'']\<rparr>)
         \<and> process env download_path url format_choice w
           = Inr (w\<lparr>trace := trace w @ [Ydl (download_media_opts download_path format_choice) url,
                                     Log_error ''Download error'']\<rparr>)
         \<and> main_loop env download_path (url # line # ins) w
           = (case prompt_continue ins
                    (w\<lparr>trace := trace w @
                         [Input ''Enter the URL of the YouTube video: '',
                          Input ''Choose format (mp3/mp4): '',
                          Ydl (download_media_opts download_path format_choice) url,
                          Log_error ''Download error'']\<rparr>) of
                Starved w3 \<Rightarrow> Blocked w3
              | Got continue_choice ins2 w3 \<Rightarrow>
                  if continue_choice \<noteq> ''yes'' then Returned w3
                  else main_loop env download_path ins2 w3)"
proof (intro conjI)
  show "download_media env url download_path format_choice w
           = ((None, None),
              w\<lparr>trace := trace w @ [Ydl (download_media_opts download_path format_choice) url,
                                     Log_error ''Download error'']\<rparr>)"
    using assms(1) by (rule download_media_error)
  show "process env download_path url format_choice w
           = Inr (w\<lparr>trace := trace w @ [Ydl (download_media_opts download_path format_choice) url,
                                     Log_error ''Download error'']\<rparr>)"
    using assms(1) by (rule process_error)
  have "lower (strip line) \<in> {''mp3'', ''mp4''}"
    using assms(3,4) by simp
  from prompt_user_input_valid [OF assms(2) this]
  have p: "prompt_user_input (url # line # ins) w
          = Got (url, format_choice) ins
              (w\<lparr>trace := trace w @ [Input ''Enter the URL of the YouTube video: '',
                                     Input ''Choose format (mp3/mp4): '']\<rparr>)"
    using assms(3) by simp
  show "main_loop env download_path (url # line # ins) w
           = (case prompt_continue ins
                    (w\<lparr>trace := trace w @
                         [Input ''Enter the URL of the YouTube video: '',
                          Input ''Choose format (mp3/mp4): '',
                          Ydl (download_media_opts download_path format_choice) url,
                          Log_error ''Download error'']\<rparr>) of
                Starved w3 \<Rightarrow> Blocked w3
              | Got continue_choice ins2 w3 \<Rightarrow>
                  if continue_choice \<noteq> ''yes'' then Returned w3
                  else main_loop env download_path ins2 w3)"
    by (subst main_loop.simps) (simp add: p process_error [OF assms(1)])
qed

theorem download_error_skips_iteration_witness:
  "main_loop
     \<lparr>home = ''/home/u'', which_ffmpeg = True, stat_error = name_too_long, ydl = (\<lambda>opts url. DownloadError),
      ffmpeg_run = (\<lambda>src dst kwargs. True)\<rparr>
     ''/home/u/Downloads''
     [''https://www.youtube.com/watch?v=x'', '' MP3'', ''yes'']
     \<lparr>files = {}, trace = []\<rparr>
   = Blocked
       \<lparr>files = {},
        trace = [Input ''Enter the URL of the YouTube video: '',
                 Input ''Choose format (mp3/mp4): '',
                 Ydl (download_media_opts ''/home/u/Downloads'' ''mp3'') ''https://www.youtube.com/watch?v=x'',
                 Log_error ''Download error'',
                 Input ''Do you want to download another video? (yes/no): '',
                 Input ''Enter the URL of the YouTube video: '']\<rparr>"
proof -
  let ?env = "\<lparr>home = ''/home/u'', which_ffmpeg = True, stat_error = name_too_long, ydl = (\<lambda>opts url. DownloadError),
      ffmpeg_run = (\<lambda>src dst kwargs. True)\<rparr>"
  have a: "ydl ?env (download_media_opts ''/home/u/Downloads'' ''mp3'') ''https://www.youtube.com/watch?v=x''
             = DownloadError" by simp
  have b: "startswith ''https://www.youtube.com/watch?v=x'' ''https://www.youtube.com/''"
    by (simp add: startswith_def)
  have c: "lower (strip '' MP3'') = ''mp3''"
    by (simp add: lower_def strip_def isspace_def lower_char_def upper_letters_def lower_letters_def)
  have d: "''mp3'' \<in> {''mp3'', ''mp4''}" by simp
  have e: "main_loop ?env ''/home/u/Downloads'' [] w
             = Blocked (emit (Input ''Enter the URL of the YouTube video: '') w)" for w
    by (subst main_loop.simps) (simp add: prompt_user_input_def)
  have f: "lower (strip ''yes'') = ''yes''"
    by (simp add: lower_def strip_def isspace_def lower_char_def upper_letters_def lower_letters_def)
  from download_error_skips_iteration [OF a b c d, where ins = "[''yes'']" and w = "\<lparr>files = {}, trace = []\<rparr>"]
  show ?thesis
    by (simp add: e f Let_def emit_def)
qed

text \<open>
  In ytmediadownload.py and in ytmediadownload.py.py an answer to the continue prompt that
  is neither \<open>yes\<close> nor \<open>no\<close> is logged and the prompt is shown again.
\<close>

lemma prompt_continue_unrecognized:
  assumes "lower (strip line) \<notin> {''yes'', ''no''}"
  shows "prompt_continue (line # ins) w
          = prompt_continue ins
              (emit (Log_error ''Invalid input. Please enter 'yes' or 'no'.'')
                 (emit (Input ''Do you want to download another video? (yes/no): '') w))"
  using assms by (simp add: Let_def)

lemma prompt_another_unrecognized:
  assumes "lower (strip line) \<notin> {''yes'', ''no''}"
  shows "prompt_another (line # ins) w
          = prompt_another ins
              (emit (Log_error ''Invalid input. Please enter 'yes' or 'no'.'')
                 (emit (Input ''Do you want to convert another video? (yes/no): '') w))"
  using assms by (simp add: Let_def)

lemma prompt_url_rest: "prompt_url ins w = Got x ins1 w1 \<Longrightarrow> set ins1 \<subseteq> set ins"
proof (induction ins arbitrary: w)
  case Nil
  then show ?case by simp
next
  case (Cons line ins)
  then show ?case
    by (fastforce simp: Let_def split: if_splits)
qed

lemma prompt_format_rest: "prompt_format ins w = Got x ins1 w1 \<Longrightarrow> set ins1 \<subseteq> set ins"
proof (induction ins arbitrary: w)
  case Nil
  then show ?case by simp
next
  case (Cons line ins)
  then show ?case
    by (fastforce simp: Let_def split: if_splits)
qed

lemma prompt_user_input_rest: "prompt_user_input ins w = Got x ins1 w1 \<Longrightarrow> set ins1 \<subseteq> set ins"
  by (auto simp: prompt_user_input_def split: reading.splits
      dest!: prompt_url_rest prompt_format_rest)

lemma prompt_continue_answer:
  "prompt_continue ins w = Got c ins1 w1 \<Longrightarrow>
     c \<in> {''yes'', ''no''} \<and> (\<exists>line \<in> set ins. lower (strip line) = c) \<and> set ins1 \<subseteq> set ins"
proof (induction ins arbitrary: w)
  case Nil
  then show ?case by simp
next
  case (Cons line ins)
  show ?case
  proof (cases "lower (strip line) \<in> {''yes'', ''no''}")
    case True
    with Cons.prems show ?thesis by (auto simp: Let_def)
  next
    case False
    with Cons.prems have "prompt_continue ins
              (emit (Log_error ''Invalid input. Please enter 'yes' or 'no'.'')
                 (emit (Input ''Do you want to download another video? (yes/no): '') w)) = Got c ins1 w1"
      by (simp add: Let_def)
    from Cons.IH [OF this] show ?thesis by auto
  qed
qed

lemma process_not_Returned: "process env download_path url format_choice w \<noteq> Inl (Returned w')"
  by (auto simp: process_def convert_to_mp3_def Let_def
      split: prod.splits option.splits sum.splits if_splits)

text \<open>
  In ytmediadownload.py the loop of \<open>main\<close> returns only after the answer \<open>no\<close>.
\<close>

lemma main_loop_returns_after_no:
  "main_loop env download_path ins w = Returned w' \<Longrightarrow> \<exists>line \<in> set ins. lower (strip line) = ''no''"
proof (induction env download_path ins w rule: main_loop.induct)
  case (1 env download_path ins w)
  from "1.prems" obtain url format_choice ins1 w1 w2 c ins2 w3
    where pu: "prompt_user_input ins w = Got (url, format_choice) ins1 w1"
      and pr: "process env download_path url format_choice w1 = Inr w2"
      and pc: "prompt_continue ins1 w2 = Got c ins2 w3"
      and r: "(if c \<noteq> ''yes'' then Returned w3 else main_loop env download_path ins2 w3) = Returned w'"
    using process_not_Returned [of env download_path _ _ _ w']
    by (subst (asm) main_loop.simps) (auto split: reading.splits sum.splits prod.splits)
  from prompt_user_input_rest [OF pu] have s1: "set ins1 \<subseteq> set ins" .
  from prompt_continue_answer [OF pc]
  have c: "c \<in> {''yes'', ''no''}" and l: "\<exists>line \<in> set ins1. lower (strip line) = c"
    and s2: "set ins2 \<subseteq> set ins1" by auto
  show ?case
  proof (cases "c = ''yes''")
    case True
    with r have "main_loop env download_path ins2 w3 = Returned w'" by simp
    from "1.IH" [OF pu _ pr pc _ this] True
    have "\<exists>line \<in> set ins2. lower (strip line) = ''no''" by simp
    with s1 s2 show ?thesis by blast
  next
    case False
    with c have "c = ''no''" by simp
    with l s1 show ?thesis by blast
  qed
qed


text \<open>
  \<open>main\<close> of ytmediadownload.py returns only when ffmpeg is missing or after the
  answer \<open>no\<close>.
\<close>

lemma main_returns_after_no:
  assumes "main env ins w = Returned w'"
  shows "\<not> which_ffmpeg env \<or> (\<exists>line \<in> set ins. lower (strip line) = ''no'')"
proof (cases "which_ffmpeg env")
  case True
  with assms show ?thesis
    by (auto simp: main_def Let_def dest: main_loop_returns_after_no)
next
  case False
  then show ?thesis by simp
qed

lemma input_rest: "input prompt ins w = Got x ins1 w1 \<Longrightarrow> set ins1 \<subseteq> set ins"
  by (auto simp: input_def split: list.splits)

lemma prompt_quality_rest:
  "prompt_quality url format_choice ins w = Got x ins1 w1 \<Longrightarrow> set ins1 \<subseteq> set ins"
  by (auto simp: prompt_quality_def Let_def split: if_splits reading.splits dest!: input_rest)

lemma prompt_user_input_quality_rest:
  "prompt_user_input_quality ins w = Got x ins1 w1 \<Longrightarrow> set ins1 \<subseteq> set ins"
  by (auto simp: prompt_user_input_quality_def Let_def split: if_splits reading.splits
      dest!: input_rest prompt_quality_rest)

lemma prompt_another_answer:
  "prompt_another ins w = Got c ins1 w1 \<Longrightarrow>
     c \<in> {''yes'', ''no''} \<and> (\<exists>line \<in> set ins. lower (strip line) = c) \<and> set ins1 \<subseteq> set ins"
proof (induction ins arbitrary: w)
  case Nil
  then show ?case by simp
next
  case (Cons line ins)
  show ?case
  proof (cases "lower (strip line) \<in> {''yes'', ''no''}")
    case True
    with Cons.prems show ?thesis by (auto simp: Let_def)
  next
    case False
    with Cons.prems have "prompt_another ins
              (emit (Log_error ''Invalid input. Please enter 'yes' or 'no'.'')
                 (emit (Input ''Do you want to convert another video? (yes/no): '') w)) = Got c ins1 w1"
      by (simp add: Let_def)
    from Cons.IH [OF this] show ?thesis by auto
  qed
qed

lemma process_quality_not_Returned:
  "process_quality msgs env download_path url format_choice audio_quality video_quality w \<noteq> Inl (Returned w')"
  by (auto simp: process_quality_def convert_to_mp3_quality_def Let_def
      split: prod.splits option.splits sum.splits if_splits)

text \<open>
  In ytmediadownload.py.py the loop of \<open>main\<close> returns only after the answer \<open>no\<close>.
\<close>

lemma main_loop_download_py_returns_after_no:
  "main_loop_download_py env download_path ins w = Returned w' \<Longrightarrow>
     \<exists>line \<in> set ins. lower (strip line) = ''no''"
proof (induction env download_path ins w rule: main_loop_download_py.induct)
  case (1 env download_path ins w)
  from "1.prems" obtain r ins1 w1
    where pu: "prompt_user_input_quality ins w = Got r ins1 w1"
    by (subst (asm) main_loop_download_py.simps) (auto split: reading.splits)
  from prompt_user_input_quality_rest [OF pu] have s1: "set ins1 \<subseteq> set ins" .
  show ?case
  proof (cases r)
    case None
    with "1.prems" pu have "main_loop_download_py env download_path ins1 w1 = Returned w'"
      by (subst (asm) main_loop_download_py.simps) simp
    from "1.IH"(1) [OF pu None this] s1 show ?thesis by blast
  next
    case (Some q)
    obtain url format_choice audio_quality video_quality
      where q: "q = (url, format_choice, audio_quality, video_quality)" by (cases q) auto
    from "1.prems" pu Some q obtain w2 c ins2 w3
      where pr: "process_quality msgs_download_py env download_path url format_choice
                   audio_quality video_quality w1 = Inr w2"
        and pc: "prompt_another ins1 w2 = Got c ins2 w3"
        and r: "(if c = ''yes'' then main_loop_download_py env download_path ins2 w3 else Returned w3)
                  = Returned w'"
      using process_quality_not_Returned [of msgs_download_py env download_path _ _ _ _ _ w']
      by (subst (asm) main_loop_download_py.simps) (auto split: reading.splits sum.splits)
    from prompt_another_answer [OF pc]
    have c: "c \<in> {''yes'', ''no''}" and l: "\<exists>line \<in> set ins1. lower (strip line) = c"
      and s2: "set ins2 \<subseteq> set ins1" by auto
    show ?thesis
    proof (cases "c = ''yes''")
      case True
      with r have "main_loop_download_py env download_path ins2 w3 = Returned w'" by simp
      have "\<exists>line \<in> set ins2. lower (strip line) = ''no''"
        by (rule "1.IH"(2) [OF pu Some]) (use q pr pc True \<open>main_loop_download_py env download_path ins2 w3 = Returned w'\<close> in auto)
      with s1 s2 show ?thesis by blast
    next
      case False
      with c have "c = ''no''" by simp
      with l s1 show ?thesis by blast
    qed
  qed
qed

lemma main_download_py_returns_after_no:
  assumes "main_download_py env ins w = Returned w'"
  shows "\<not> which_ffmpeg env \<or> (\<exists>line \<in> set ins. lower (strip line) = ''no'')"
proof (cases "which_ffmpeg env")
  case True
  with assms show ?thesis
    by (auto simp: main_download_py_def Let_def dest: main_loop_download_py_returns_after_no)
next
  case False
  then show ?thesis by simp
qed

lemma files_emit: "files (emit e w) = files w"
  by (simp add: emit_def)

lemma generate_unique_filename_returns:
  assumes "finite fs" and "\<forall>p. \<not> sr p"
  shows "\<exists>p. generate_unique_filename sr fs dir title ext = Some (Inr p)"
proof -
  from first_decisive_exists [OF assms(1), of sr dir title ext] obtain m
    where m: "decides sr fs (candidate dir title ext m)"
      "\<forall>j<m. \<not> decides sr fs (candidate dir title ext j)" by blast
  from generate_unique_filename_first_decisive [OF m(2) m(1)] assms(2)
  show ?thesis by (simp add: verdict_def)
qed

lemma generate_unique_filename_not_None:
  assumes "finite fs" and "\<forall>p. \<not> sr p"
  shows "generate_unique_filename sr fs dir title ext \<noteq> None"
  using generate_unique_filename_returns [OF assms, of dir title ext] by auto

lemma generate_unique_filename_not_Inl:
  assumes "finite fs" and "\<forall>p. \<not> sr p"
  shows "generate_unique_filename sr fs dir title ext \<noteq> Some (Inl e)"
  using generate_unique_filename_returns [OF assms, of dir title ext] by auto

lemma prompt_url_files: "prompt_url ins w = Got x ins1 w1 \<Longrightarrow> files w1 = files w"
proof (induction ins arbitrary: w)
  case Nil
  then show ?case by simp
next
  case (Cons line ins)
  then show ?case
    by (fastforce simp: Let_def files_emit split: if_splits)
qed

lemma prompt_format_files: "prompt_format ins w = Got x ins1 w1 \<Longrightarrow> files w1 = files w"
proof (induction ins arbitrary: w)
  case Nil
  then show ?case by simp
next
  case (Cons line ins)
  then show ?case
    by (fastforce simp: Let_def files_emit split: if_splits)
qed

lemma prompt_continue_files: "prompt_continue ins w = Got x ins1 w1 \<Longrightarrow> files w1 = files w"
proof (induction ins arbitrary: w)
  case Nil
  then show ?case by simp
next
  case (Cons line ins)
  then show ?case
    by (fastforce simp: Let_def files_emit split: if_splits)
qed

lemma prompt_user_input_files: "prompt_user_input ins w = Got x ins1 w1 \<Longrightarrow> files w1 = files w"
  by (auto simp: prompt_user_input_def split: reading.splits
      dest!: prompt_url_files prompt_format_files)

text \<open>
  With finitely many files, and when \<open>exists()\<close> raises on no path, the body of the loop
  in ytmediadownload.py always reaches the continue prompt: no exception leaves it and the
  allocator returns.
\<close>

lemma process_reaches_prompt:
  assumes "finite (files w)" and "\<forall>p. \<not> stat_error env p"
  shows "\<exists>w'. process env download_path url format_choice w = Inr w' \<and> finite (files w')"
proof (cases "ydl env (download_media_opts download_path format_choice) url")
  case DownloadError
  with assms show ?thesis
    by (simp add: process_def download_media_def Let_def files_emit)
next
  case (Info t)
  show ?thesis
  proof (cases "format_choice = ''mp3''")
    case True
    with Info assms show ?thesis
      by (auto simp: generate_unique_filename_not_None generate_unique_filename_not_Inl process_def
          download_media_def convert_to_mp3_def unlink_def Let_def files_emit
          split: option.splits sum.splits prod.splits)
  next
    case False
    with Info assms show ?thesis
      by (auto simp: generate_unique_filename_not_None generate_unique_filename_not_Inl process_def
          download_media_def reencode_to_mp4_def unlink_def Let_def files_emit
          split: option.splits sum.splits prod.splits)
  qed
qed


text \<open>
  Hence, started with finitely many files and with an \<open>exists()\<close> that raises on no path,
  the loop of \<open>main\<close> in ytmediadownload.py either returns or waits for the next line: it
  is never ended by an exception.
\<close>

lemma main_loop_returns_or_waits:
  "finite (files w) \<Longrightarrow> \<forall>p. \<not> stat_error env p \<Longrightarrow>
     (\<exists>w'. main_loop env download_path ins w = Returned w')
     \<or> (\<exists>w'. main_loop env download_path ins w = Blocked w')"
proof (induction env download_path ins w rule: main_loop.induct)
  case (1 env download_path ins w)
  show ?case
  proof (cases "prompt_user_input ins w")
    case (Starved w1)
    then show ?thesis by (subst (1 2) main_loop.simps) simp
  next
    case (Got x ins1 w1)
    obtain url format_choice where x: "x = (url, format_choice)" by (cases x) auto
    from prompt_user_input_files [OF Got] "1.prems" have f1: "finite (files w1)" by simp
    from process_reaches_prompt [OF f1 "1.prems"(2), of download_path url format_choice] obtain w2
      where pr: "process env download_path url format_choice w1 = Inr w2" and f2: "finite (files w2)"
      by blast
    show ?thesis
    proof (cases "prompt_continue ins1 w2")
      case (Starved w3)
      with Got x pr show ?thesis by (subst (1 2) main_loop.simps) simp
    next
      case pc: (Got c ins2 w3)
      from prompt_continue_files [OF pc] f2 have f3: "finite (files w3)" by simp
      show ?thesis
      proof (cases "c = ''yes''")
        case True
        have "(\<exists>w'. main_loop env download_path ins2 w3 = Returned w')
              \<or> (\<exists>w'. main_loop env download_path ins2 w3 = Blocked w')"
          by (rule "1.IH" [OF Got [unfolded x] refl pr pc _ f3 "1.prems"(2)]) (use True in simp)
        with Got x pr pc True show ?thesis by (subst (1 2) main_loop.simps) simp
      next
        case False
        with Got x pr pc show ?thesis by (subst (1 2) main_loop.simps) simp
      qed
    qed
  qed
qed

lemma input_files: "input prompt ins w = Got x ins1 w1 \<Longrightarrow> files w1 = files w"
  by (cases ins) (auto simp: input_def files_emit)

lemma prompt_quality_files:
  "prompt_quality url format_choice ins w = Got x ins1 w1 \<Longrightarrow> files w1 = files w"
  by (cases ins) (auto simp: prompt_quality_def input_def Let_def files_emit split: if_splits)

lemma prompt_user_input_quality_files:
  assumes "prompt_user_input_quality ins w = Got x ins1 w1"
  shows "files w1 = files w"
proof (cases ins)
  case Nil
  with assms show ?thesis by (simp add: prompt_user_input_quality_def input_def)
next
  case url: (Cons url rest)
  show ?thesis
  proof (cases "startswith url ''https://www.youtube.com/''")
    case False
    with assms url show ?thesis
      by (auto simp: prompt_user_input_quality_def input_def files_emit)
  next
    case True
    show ?thesis
    proof (cases rest)
      case Nil
      with assms url True show ?thesis
        by (simp add: prompt_user_input_quality_def input_def)
    next
      case (Cons line rest2)
      show ?thesis
      proof (cases "lower (strip line) \<in> set [''mp3'', ''mp4'']")
        case False
        with assms url True Cons show ?thesis
          by (auto simp: prompt_user_input_quality_def input_def Let_def files_emit)
      next
        case fmt: True
        with assms url True Cons
        have "prompt_quality url (lower (strip line)) rest2
                (emit (Input ''Choose format (mp3/mp4): '')
                   (emit (Input ''Enter the URL of the YouTube video: '') w)) = Got x ins1 w1"
          by (auto simp: prompt_user_input_quality_def input_def Let_def)
        from prompt_quality_files [OF this] show ?thesis by (simp add: files_emit)
      qed
    qed
  qed
qed

lemma prompt_another_files: "prompt_another ins w = Got x ins1 w1 \<Longrightarrow> files w1 = files w"
proof (induction ins arbitrary: w)
  case Nil
  then show ?case by simp
next
  case (Cons line ins)
  then show ?case
    by (fastforce simp: Let_def files_emit split: if_splits)
qed

lemma convert_to_mp3_quality_returns:
  assumes "finite (files w)" and "\<forall>p. \<not> stat_error env p"
  shows "\<exists>r w'. convert_to_mp3_quality msg env input_file output_path title quality w = Inr (r, w')
                  \<and> finite (files w') \<and> files w \<subseteq> files w'"
proof -
  from generate_unique_filename_returns [OF assms, of output_path title "''mp3''"]
  obtain output_file
    where "generate_unique_filename (stat_error env) (files w) output_path title ''mp3'' = Some (Inr output_file)"
    by auto
  with assms show ?thesis
    by (auto simp: convert_to_mp3_quality_def Let_def files_emit)
qed

lemma process_quality_reaches_prompt:
  assumes "finite (files w)" and "\<forall>p. \<not> stat_error env p"
  shows "\<exists>w'. process_quality msgs env download_path url format_choice audio_quality video_quality w
                 = Inr w' \<and> finite (files w')"
proof -
  obtain msg_download msg_convert msg_unlink where m: "msgs = (msg_download, msg_convert, msg_unlink)"
    by (cases msgs) auto
  show ?thesis
  proof (cases "ydl env (download_video_opts download_path format_choice video_quality) url")
    case DownloadError
    with assms show ?thesis
      by (simp add: m process_quality_def download_video_def Let_def files_emit)
  next
    case (Info t)
    define title where "title = replace_slashes (case t of Some s \<Rightarrow> s | None \<Rightarrow> ''video'')"
    define file_path where "file_path =
      (if format_choice = ''mp3'' then joinpath download_path ''audio.m4a''
       else joinpath download_path ''video.mp4'')"
    define w1 where "w1 = emit (Log_info ''Download complete.'')
      ((emit (Ydl (download_video_opts download_path format_choice video_quality) url) w)
         \<lparr>files := insert file_path (files w)\<rparr>)"
    have dv: "download_video msg_download env url download_path format_choice audio_quality video_quality w
                = ((Some file_path, Some title), w1)"
      using Info by (simp add: download_video_def Let_def title_def file_path_def w1_def files_emit)
    have f1: "finite (files w1)" and in1: "file_path \<in> files w1"
      using assms by (simp_all add: w1_def files_emit)
    show ?thesis
    proof (cases "title = []")
      case True
      with dv f1 show ?thesis
        by (simp add: m process_quality_def truthy_def)
    next
      case nonempty: False
      show ?thesis
      proof (cases "format_choice = ''mp3''")
        case True
        from convert_to_mp3_quality_returns [OF f1 assms(2), of msg_convert file_path download_path title audio_quality]
        obtain r w2 where c: "convert_to_mp3_quality msg_convert env file_path download_path title audio_quality w1
                               = Inr (r, w2)"
          and f2: "finite (files w2)" and in2: "files w1 \<subseteq> files w2" by blast
        from in1 in2 have "file_path \<in> files w2" by blast
        with dv c f2 nonempty True show ?thesis
          by (cases r) (simp_all add: m process_quality_def truthy_def unlink_def Let_def files_emit)
      next
        case False
        from generate_unique_filename_returns [OF f1 assms(2), of download_path title "''mp4''"]
        obtain output_file
          where "generate_unique_filename (stat_error env) (files w1) download_path title ''mp4''
                   = Some (Inr output_file)"
          by auto
        with dv f1 in1 nonempty False show ?thesis
          by (simp add: m process_quality_def truthy_def rename_def Let_def files_emit)
      qed
    qed
  qed
qed

text \<open>The same for the loop of \<open>main\<close> in ytmediadownload.py.py.\<close>

lemma main_loop_download_py_returns_or_waits:
  "finite (files w) \<Longrightarrow> \<forall>p. \<not> stat_error env p \<Longrightarrow>
     (\<exists>w'. main_loop_download_py env download_path ins w = Returned w')
     \<or> (\<exists>w'. main_loop_download_py env download_path ins w = Blocked w')"
proof (induction env download_path ins w rule: main_loop_download_py.induct)
  case (1 env download_path ins w)
  show ?case
  proof (cases "prompt_user_input_quality ins w")
    case (Starved w1)
    then show ?thesis by (subst (1 2) main_loop_download_py.simps) simp
  next
    case (Got r ins1 w1)
    from prompt_user_input_quality_files [OF Got] "1.prems" have f1: "finite (files w1)" by simp
    show ?thesis
    proof (cases r)
      case None
      from "1.IH"(1) [OF Got None f1 "1.prems"(2)] Got None show ?thesis
        by (subst (1 2) main_loop_download_py.simps) simp
    next
      case (Some q)
      obtain url format_choice audio_quality video_quality
        where q: "q = (url, format_choice, audio_quality, video_quality)" by (cases q) auto
      from process_quality_reaches_prompt [OF f1 "1.prems"(2)] obtain w2
        where pr: "process_quality msgs_download_py env download_path url format_choice
                     audio_quality video_quality w1 = Inr w2" and f2: "finite (files w2)"
        by blast
      show ?thesis
      proof (cases "prompt_another ins1 w2")
        case (Starved w3)
        with Got Some q pr show ?thesis by (subst (1 2) main_loop_download_py.simps) simp
      next
        case pc: (Got c ins2 w3)
        from prompt_another_files [OF pc] f2 have f3: "finite (files w3)" by simp
        show ?thesis
        proof (cases "c = ''yes''")
          case True
          have "(\<exists>w'. main_loop_download_py env download_path ins2 w3 = Returned w')
                \<or> (\<exists>w'. main_loop_download_py env download_path ins2 w3 = Blocked w')"
            by (rule "1.IH"(2) [OF Got Some]) (use q pr pc True f3 "1.prems"(2) in auto)
          with Got Some q pr pc True show ?thesis
            by (subst (1 2) main_loop_download_py.simps) simp
        next
          case False
          with Got Some q pr pc show ?thesis by (subst (1 2) main_loop_download_py.simps) simp
        qed
      qed
    qed
  qed
qed

lemma generate_unique_filename_raises_at_once:
  "stat_raises (joinpath dir (title @ ''.'' @ ext)) \<Longrightarrow>
     generate_unique_filename stat_raises fs dir title ext = Some (Inl ''OSError'')"
  by (simp add: generate_unique_filename_def generate_unique_filename_loop.simps)

lemma sanitize_filename_replicate_a:
  "sanitize_filename (replicate n CHR ''a'') = replicate n CHR ''a''"
  by (simp add: sanitize_filename_map invalid_chars_def)

text \<open>
  The exception reaches \<open>main\<close>: for a video whose title is 252 letters \<open>a\<close>, the body of
  the loop in ytmediadownload.py ends with \<open>OSError\<close> after the download.
\<close>

lemma process_long_title_raises:
  "\<exists>w'. process
          \<lparr>home = ''/home/u'', which_ffmpeg = True, stat_error = name_too_long,
           ydl = (\<lambda>opts url. Info (Some (replicate 252 CHR ''a''))),
           ffmpeg_run = (\<lambda>src dst kwargs. True)\<rparr>
          ''/home/u/Downloads'' ''https://www.youtube.com/watch?v=x'' ''mp3''
          \<lparr>files = {}, trace = []\<rparr>
        = Inl (Raised ''OSError'' w')"
proof -
  have "generate_unique_filename name_too_long fs ''/home/u/Downloads'' (replicate 252 CHR ''a'') ''mp3''
          = Some (Inl ''OSError'')" for fs
    using long_name_too_long [of "''/home/u/Downloads''"]
    by (intro generate_unique_filename_raises_at_once) simp
  then show ?thesis
    by (simp add: process_def download_media_def convert_to_mp3_def Let_def truthy_def
        sanitize_filename_replicate_a files_emit)
qed

lemma lower_strip_maybe: "lower (strip ''maybe'') = ''maybe''"
  by (simp add: lower_def strip_def isspace_def lower_char_def upper_letters_def lower_letters_def)

text \<open>
  C8: in ytmediaqualityselect.py the answer \<open>maybe\<close> to the continue prompt, which is
  neither \<open>yes\<close> nor \<open>no\<close>, makes \<open>main\<close> return: the run below ends with the continue
  prompt as its last event and the outcome \<open>Returned\<close>.
\<close>

theorem main_qualityselect_unrecognized_answer_returns:
  "main_qualityselect
     \<lparr>home = ''/home/u'', which_ffmpeg = True, stat_error = name_too_long, ydl = (\<lambda>opts url. DownloadError),
      ffmpeg_run = (\<lambda>src dst kwargs. True)\<rparr>
     [''https://www.youtube.com/watch?v=x'', ''mp3'', ''low'', ''maybe'']
     \<lparr>files = {}, trace = []\<rparr>
   = Returned
       \<lparr>files = {''/home/u/Downloads''},
        trace = [Mkdir ''/home/u/Downloads'',
                 Input ''Enter the URL of the YouTube video: '',
                 Input ''Choose format (mp3/mp4): '',
                 Input ''Choose audio quality (low/medium/high): '',
                 Ydl (download_video_opts ''/home/u/Downloads'' ''mp3'' None) ''https://www.youtube.com/watch?v=x'',
                 Log_error ''Download error'',
                 Input ''Do you want to convert another video? (yes/no): '']\<rparr>
   \<and> lower (strip ''maybe'') \<notin> {''yes'', ''no''}"
proof -
  have a: "lower (strip ''mp3'') = ''mp3''" "lower (strip ''low'') = ''low''"
    by (simp_all add: lower_def strip_def isspace_def lower_char_def upper_letters_def lower_letters_def)
  have b: "startswith ''https://www.youtube.com/watch?v=x'' ''https://www.youtube.com/''"
    by (simp add: startswith_def)
  show ?thesis
    by (simp add: main_qualityselect_def main_loop_qualityselect.simps prompt_user_input_quality_def
        prompt_quality_def input_def a b lower_strip_maybe process_quality_def msgs_qualityselect_def
        download_video_def truthy_def Let_def emit_def joinpath_def)
qed

end
